theory Spec2Isabelle
  imports Main "HOL-Library.Sublist" "HOL-Library.Word"
begin

section \<open>Strings, bytes and Python exceptions\<close>

text \<open>
  The script \<^verbatim>\<open>getyotd.py\<close> has two functions, \<^verbatim>\<open>get_calendar\<close> (the Fetcher) and
  \<^verbatim>\<open>open_calendar\<close> (the Launcher). Python's \<^verbatim>\<open>str\<close> is modelled by \<open>string\<close>,
  \<^verbatim>\<open>bytes\<close> by a list of 8-bit words, and an exception by a value that keeps the class
  and the message of the \<^verbatim>\<open>raise\<close> statement.
\<close>

type_synonym bytes = "8 word list"

datatype py_exception =
    ValueError string
  | ConnectionError string
  | FileNotFoundError string
  | KeyError string
  | FileExistsError
  | NotADirectoryError
  | IsADirectoryError
  | RequestException string
  | WebbrowserError string

text \<open>\<^verbatim>\<open>needle in haystack\<close> on strings: a contiguous substring test.\<close>

definition str_in :: "string \<Rightarrow> string \<Rightarrow> bool" where
  "str_in needle haystack = sublist needle haystack"

text \<open>\<^verbatim>\<open>str(n)\<close> for an integer: decimal digits, with a sign for a negative number.\<close>

definition digit_char :: "nat \<Rightarrow> char" where
  "digit_char d = ''0123456789'' ! (d mod 10)"

function str_nat :: "nat \<Rightarrow> string" where
  "str_nat n = (if n < 10 then [digit_char n] else str_nat (n div 10) @ [digit_char (n mod 10)])"
  by pat_completeness auto
termination
  by (relation "measure (\<lambda>n. n)") auto

declare str_nat.simps [simp del]

definition str_int :: "int \<Rightarrow> string" where
  "str_int i = (if i < 0 then CHR ''-'' # str_nat (nat (- i)) else str_nat (nat i))"

text \<open>The text \<^verbatim>\<open>'{s}'\<close> of an f-string: \<open>s\<close> between two apostrophes.\<close>

definition quoted :: "string \<Rightarrow> string" where
  "quoted s = CHR 0x27 # s @ [CHR 0x27]"

text \<open>\<^verbatim>\<open>str.lower()\<close>, on the ASCII letters that a month name is made of.\<close>

definition lower_char :: "char \<Rightarrow> char" where
  "lower_char c =
     (case map_of (zip ''ABCDEFGHIJKLMNOPQRSTUVWXYZ'' ''abcdefghijklmnopqrstuvwxyz'') c of
        Some l \<Rightarrow> l
      | None \<Rightarrow> c)"

definition lower :: "string \<Rightarrow> string" where
  "lower s = map lower_char s"

section \<open>The current date and the cache key\<close>

text \<open>
  \<^verbatim>\<open>datetime.today()\<close> is read from the environment. Only the year and the month reach
  the format \<^verbatim>\<open>'%Y%B'\<close>. A \<^verbatim>\<open>datetime\<close> holds a month from 1 to 12 and a year up to
  9999; years below 1000 are left out of \<open>valid_date\<close>, since the padding of \<^verbatim>\<open>%Y\<close>
  depends on the platform there and \<^verbatim>\<open>today()\<close> never returns one. The script never
  calls \<^verbatim>\<open>setlocale\<close>, so \<^verbatim>\<open>%B\<close> gives the English month names of the C locale.
\<close>

record date =
  year :: nat
  month :: nat
  day :: nat

definition valid_date :: "date \<Rightarrow> bool" where
  "valid_date d \<longleftrightarrow>
     1000 \<le> year d \<and> year d \<le> 9999 \<and> 1 \<le> month d \<and> month d \<le> 12 \<and> 1 \<le> day d \<and> day d \<le> 31"

definition month_names :: "string list" where
  "month_names =
     [''January'', ''February'', ''March'', ''April'', ''May'', ''June'', ''July'',
      ''August'', ''September'', ''October'', ''November'', ''December'']"

definition strftime_B :: "nat \<Rightarrow> string" where
  "strftime_B m = (if 1 \<le> m \<and> m \<le> 12 then month_names ! (m - 1) else [])"

text \<open>\<^verbatim>\<open>datetime.today().strftime('%Y%B')\<close>\<close>

definition strftime_YB :: "date \<Rightarrow> string" where
  "strftime_YB d = str_nat (year d) @ strftime_B (month d)"

text \<open>The cache key \<^verbatim>\<open>str(datetime.today().strftime(format)).lower()\<close> and the file name.\<close>

definition cache_key :: "date \<Rightarrow> string" where
  "cache_key d = lower (strftime_YB d)"

definition cache_file_name :: "date \<Rightarrow> string" where
  "cache_file_name d = cache_key d @ ''.pdf''"


section \<open>The filesystem\<close>

text \<open>
  A path is the list of its components below the root (\<^verbatim>\<open>Path.parts\<close>), already absolute
  and normalised, so that \<^verbatim>\<open>dir / name\<close> is \<open>dir @ [name]\<close> and \<^verbatim>\<open>resolve()\<close> changes
  nothing. The filesystem maps a path to a regular file with its bytes or to a directory.
  Every lookup walks down from the root as the operating system does: an entry is
  reachable only through directories.
\<close>

type_synonym path = "string list"

datatype node = File bytes | Dir

type_synonym filesystem = "path \<Rightarrow> node option"

fun stat_from :: "filesystem \<Rightarrow> path \<Rightarrow> path \<Rightarrow> node option" where
  "stat_from fs pre [] = Some Dir"
| "stat_from fs pre (c # cs) =
     (case fs (pre @ [c]) of
        None \<Rightarrow> None
      | Some Dir \<Rightarrow> stat_from fs (pre @ [c]) cs
      | Some (File b) \<Rightarrow> (if cs = [] then Some (File b) else None))"

definition stat :: "filesystem \<Rightarrow> path \<Rightarrow> node option" where
  "stat fs p = stat_from fs [] p"

text \<open>\<^verbatim>\<open>Path.exists()\<close>: true for a regular file and for a directory.\<close>

definition path_exists :: "filesystem \<Rightarrow> path \<Rightarrow> bool" where
  "path_exists fs p \<longleftrightarrow> stat fs p \<noteq> None"

text \<open>\<^verbatim>\<open>os.mkdir(q)\<close> where nothing exists at \<open>q\<close>: a new, empty directory.\<close>

definition new_dir :: "filesystem \<Rightarrow> path \<Rightarrow> filesystem" where
  "new_dir fs q = (\<lambda>p. if strict_prefix q p then None else fs p)(q \<mapsto> Dir)"

text \<open>
  \<^verbatim>\<open>Path.mkdir(exist_ok=True, parents=True)\<close>: every missing component is created, an
  existing directory is accepted, and a regular file in the way raises.
\<close>

fun mkdir_from :: "filesystem \<Rightarrow> path \<Rightarrow> path \<Rightarrow> py_exception + filesystem" where
  "mkdir_from fs pre [] = Inr fs"
| "mkdir_from fs pre (c # cs) =
     (case fs (pre @ [c]) of
        None \<Rightarrow> mkdir_from (new_dir fs (pre @ [c])) (pre @ [c]) cs
      | Some Dir \<Rightarrow> mkdir_from fs (pre @ [c]) cs
      | Some (File b) \<Rightarrow> Inl (if cs = [] then FileExistsError else NotADirectoryError))"

definition mkdir_parents :: "filesystem \<Rightarrow> path \<Rightarrow> py_exception + filesystem" where
  "mkdir_parents fs p = mkdir_from fs [] p"

text \<open>\<^verbatim>\<open>str(path)\<close>\<close>

definition path_str :: "path \<Rightarrow> string" where
  "path_str p = (if p = [] then ''/'' else concat (map (\<lambda>c. CHR ''/'' # c) p))"

text \<open>\<^verbatim>\<open>Path.unlink()\<close>\<close>

definition unlink :: "filesystem \<Rightarrow> path \<Rightarrow> py_exception + filesystem" where
  "unlink fs p =
     (case stat fs p of
        None \<Rightarrow> Inl (FileNotFoundError (path_str p))
      | Some Dir \<Rightarrow> Inl IsADirectoryError
      | Some (File b) \<Rightarrow> Inr (fs(p := None)))"

text \<open>\<^verbatim>\<open>with open(p, 'wb') as f: f.write(data)\<close>: the file is created or truncated.\<close>

definition write_bytes :: "filesystem \<Rightarrow> path \<Rightarrow> bytes \<Rightarrow> py_exception + filesystem" where
  "write_bytes fs p data =
     (if p = [] then Inl IsADirectoryError
      else (case stat fs (butlast p) of
              None \<Rightarrow> Inl (FileNotFoundError (path_str p))
            | Some (File b) \<Rightarrow> Inl NotADirectoryError
            | Some Dir \<Rightarrow>
                (case stat fs p of
                   Some Dir \<Rightarrow> Inl IsADirectoryError
                 | _ \<Rightarrow> Inr (fs(p \<mapsto> File data)))))"

section \<open>The network, the HTML parser and the browser\<close>

text \<open>
  The collaborators of the script are parameters. \<open>http_get\<close> is \<^verbatim>\<open>requests.get\<close>: it
  raises or returns a response. \<open>find_all_a\<close> is
  \<^verbatim>\<open>BeautifulSoup(content, 'html.parser').find_all('a')\<close>: the anchors of the page in
  document order, each with its visible text and its attribute dictionary.
  \<open>webbrowser_get\<close> is \<^verbatim>\<open>webbrowser.get\<close>: it raises, or returns a controller; \<open>None\<close>
  stands for a returned value that Python takes as false, which the source tests for
  (the library never returns one: for a name that it cannot resolve it raises
  \<^verbatim>\<open>webbrowser.Error\<close>).
  \<open>open_new\<close> is the controller's \<^verbatim>\<open>open_new\<close>, which raises or returns a flag.
\<close>

record response =
  status_code :: int
  content :: bytes

record anchor =
  a_text :: string
  a_attrs :: "string \<rightharpoonup> string"

type_synonym browser = string

record env =
  today :: date
  http_get :: "string \<Rightarrow> py_exception + response"
  find_all_a :: "bytes \<Rightarrow> anchor list"
  webbrowser_get :: "string option \<Rightarrow> py_exception + browser option"
  open_new :: "browser \<Rightarrow> string \<Rightarrow> py_exception + bool"

text \<open>
  What a call can change: the filesystem, the list of URLs requested so far and the list
  of open requests issued so far.
\<close>

record world =
  fs :: filesystem
  requested :: "string list"
  opened :: "(browser \<times> string) list"

definition requests_get :: "env \<Rightarrow> world \<Rightarrow> string \<Rightarrow> (py_exception + response) \<times> world" where
  "requests_get e w url = (http_get e url, w\<lparr>requested := requested w @ [url]\<rparr>)"

section \<open>The Fetcher: \<^verbatim>\<open>get_calendar\<close>\<close>

definition search_str :: string where
  "search_str = ''Click here to Download the Free PDF''"

definition is_dl_anchor :: "anchor \<Rightarrow> bool" where
  "is_dl_anchor a \<longleftrightarrow> str_in search_str (a_text a)"

text \<open>
  \<^verbatim>\<open>[a['href'] for a in links if search_str in a.text]\<close>: the comprehension stops with
  \<^verbatim>\<open>KeyError\<close> at the first selected anchor that has no \<^verbatim>\<open>href\<close>.
\<close>

fun dl_links :: "anchor list \<Rightarrow> py_exception + string list" where
  "dl_links [] = Inr []"
| "dl_links (a # as) =
     (if is_dl_anchor a then
        (case a_attrs a ''href'' of
           None \<Rightarrow> Inl (KeyError ''href'')
         | Some h \<Rightarrow> (case dl_links as of Inl e \<Rightarrow> Inl e | Inr hs \<Rightarrow> Inr (h # hs)))
      else dl_links as)"

text \<open>
  The tail \<^verbatim>\<open>\\nStatus code: {status_code}\<close> of the two \<^verbatim>\<open>ConnectionError\<close> messages.
\<close>

definition status_line :: "int \<Rightarrow> string" where
  "status_line code = CHR 0x0A # ''Status code: '' @ str_int code"

text \<open>
  The function returns its result, or the exception that it raises, together with the
  world it leaves behind. The script reads \<^verbatim>\<open>datetime.today()\<close> twice; the first value
  (\<^verbatim>\<open>date\<close>) is never used, so the model reads \<open>today\<close> once, for the file name.
\<close>

definition get_calendar ::
  "env \<Rightarrow> world \<Rightarrow> path \<Rightarrow> string option \<Rightarrow> bool \<Rightarrow> (py_exception + path) \<times> world" where
  "get_calendar e w dir page_url force_dl =
     (case mkdir_parents (fs w) dir of
        Inl x \<Rightarrow> (Inl x, w)
      | Inr fs1 \<Rightarrow>
          let file = dir @ [cache_file_name (today e)] in
          (case (if force_dl \<and> path_exists fs1 file then unlink fs1 file else Inr fs1) of
             Inl x \<Rightarrow> (Inl x, w\<lparr>fs := fs1\<rparr>)
           | Inr fs2 \<Rightarrow>
               let w2 = w\<lparr>fs := fs2\<rparr> in
               if path_exists fs2 file then (Inr file, w2)
               else if page_url = None \<or> page_url = Some [] then
                 (Inl (ValueError ''No page URL provided.''), w2)
               else
                 let url = the page_url;
                     (got, w3) = requests_get e w2 url in
                 (case got of
                    Inl x \<Rightarrow> (Inl x, w3)
                  | Inr response \<Rightarrow>
                      if status_code response \<noteq> 200 then
                        (Inl (ConnectionError (''Failed to retrieve calendar from '' @ quoted url
                                @ status_line (status_code response))), w3)
                      else
                        (case dl_links (find_all_a e (content response)) of
                           Inl x \<Rightarrow> (Inl x, w3)
                         | Inr links \<Rightarrow>
                             if links = [] then
                               (Inl (ValueError (''No download links found for search string ''
                                       @ quoted search_str)), w3)
                             else if length links \<noteq> 1 then
                               (Inl (ValueError (''Multiple download links found for search string ''
                                       @ quoted search_str)), w3)
                             else
                               let pdf_url = links ! 0;
                                   (pdf_got, w4) = requests_get e w3 pdf_url in
                               (case pdf_got of
                                  Inl x \<Rightarrow> (Inl x, w4)
                                | Inr pdf_response \<Rightarrow>
                                    if status_code pdf_response \<noteq> 200 then
                                      (Inl (ConnectionError (''Failed to download PDF from ''
                                              @ quoted pdf_url
                                              @ status_line (status_code pdf_response))), w4)
                                    else
                                      (case write_bytes (fs w4) file (content pdf_response) of
                                         Inl x \<Rightarrow> (Inl x, w4)
                                       | Inr fs5 \<Rightarrow> (Inr file, w4\<lparr>fs := fs5\<rparr>)))))))"

section \<open>The Launcher: \<^verbatim>\<open>open_calendar\<close>\<close>

text \<open>The text that an f-string gives for \<^verbatim>\<open>using\<close>, which may be \<^verbatim>\<open>None\<close>.\<close>

definition str_opt :: "string option \<Rightarrow> string" where
  "str_opt s = (case s of None \<Rightarrow> ''None'' | Some n \<Rightarrow> n)"

definition open_calendar ::
  "env \<Rightarrow> world \<Rightarrow> path \<Rightarrow> string option \<Rightarrow> (py_exception + unit) \<times> world" where
  "open_calendar e w file using_name =
     (if \<not> path_exists (fs w) file then
        (Inl (FileNotFoundError (''File '' @ quoted (path_str file) @ '' does not exist.'')), w)
      else
        (case webbrowser_get e using_name of
           Inl x \<Rightarrow> (Inl x, w)
         | Inr None \<Rightarrow>
             (Inl (ValueError (''No web browser found with name '' @ quoted (str_opt using_name))), w)
         | Inr (Some browser) \<Rightarrow>
             let url = ''file://'' @ path_str file;
                 w1 = w\<lparr>opened := opened w @ [(browser, url)]\<rparr> in
             (case open_new e browser url of
                Inl x \<Rightarrow> (Inl x, w1)
              | Inr ok \<Rightarrow> (Inr (), w1))))"


section \<open>Auxiliary notions for the proofs\<close>

text \<open>Reading a decimal string back, used to show that \<open>str_nat\<close> is injective.\<close>

definition is_digit :: "char \<Rightarrow> bool" where
  "is_digit c \<longleftrightarrow> c \<in> set ''0123456789''"

definition digit_val :: "char \<Rightarrow> nat" where
  "digit_val c = (case map_of (zip ''0123456789'' [0,1,2,3,4,5,6,7,8,9]) c of Some d \<Rightarrow> d | None \<Rightarrow> 0)"

definition nat_of_str :: "string \<Rightarrow> nat" where
  "nat_of_str s = foldl (\<lambda>acc c. 10 * acc + digit_val c) 0 s"

definition lower_month_names :: "string list" where
  "lower_month_names = map lower month_names"

text \<open>
  The part of \<open>get_calendar\<close> after the cache check (lines 41 to 65 of the script),
  named so that the proofs can treat the two halves of the function one at a time.
\<close>

definition download :: "env \<Rightarrow> world \<Rightarrow> path \<Rightarrow> string option \<Rightarrow> (py_exception + path) \<times> world" where
  "download e w2 file page_url =
     (if page_url = None \<or> page_url = Some [] then
        (Inl (ValueError ''No page URL provided.''), w2)
      else
        let url = the page_url;
            (got, w3) = requests_get e w2 url in
        (case got of
           Inl x \<Rightarrow> (Inl x, w3)
         | Inr response \<Rightarrow>
             if status_code response \<noteq> 200 then
               (Inl (ConnectionError (''Failed to retrieve calendar from '' @ quoted url
                       @ status_line (status_code response))), w3)
             else
               (case dl_links (find_all_a e (content response)) of
                  Inl x \<Rightarrow> (Inl x, w3)
                | Inr links \<Rightarrow>
                    if links = [] then
                      (Inl (ValueError (''No download links found for search string ''
                              @ quoted search_str)), w3)
                    else if length links \<noteq> 1 then
                      (Inl (ValueError (''Multiple download links found for search string ''
                              @ quoted search_str)), w3)
                    else
                      let pdf_url = links ! 0;
                          (pdf_got, w4) = requests_get e w3 pdf_url in
                      (case pdf_got of
                         Inl x \<Rightarrow> (Inl x, w4)
                       | Inr pdf_response \<Rightarrow>
                           if status_code pdf_response \<noteq> 200 then
                             (Inl (ConnectionError (''Failed to download PDF from ''
                                     @ quoted pdf_url
                                     @ status_line (status_code pdf_response))), w4)
                           else
                             (case write_bytes (fs w4) file (content pdf_response) of
                                Inl x \<Rightarrow> (Inl x, w4)
                              | Inr fs5 \<Rightarrow> (Inr file, w4\<lparr>fs := fs5\<rparr>))))))"

section \<open>Example inputs\<close>

text \<open>
  The scenario of the specification: today is in June 2024, the page is served with a
  given status and a given list of anchors, and the link \<^verbatim>\<open>https://example.com/cal.pdf\<close>
  is served with a given status and the bytes \<^verbatim>\<open>%PDF\<close>.
\<close>

definition example_today :: date where
  "example_today = \<lparr>year = 2024, month = 6, day = 15\<rparr>"

definition example_pdf :: bytes where
  "example_pdf = [0x25, 0x50, 0x44, 0x46]"

definition example_page_url :: string where
  "example_page_url = ''https://yogawithadriene.com/calendar/''"

definition example_pdf_url :: string where
  "example_pdf_url = ''https://example.com/cal.pdf''"

definition dl_anchor :: anchor where
  "dl_anchor = \<lparr>a_text = ''Click here to Download the Free PDF'', a_attrs = [''href'' \<mapsto> example_pdf_url]\<rparr>"

definition bare_anchor :: anchor where
  "bare_anchor = \<lparr>a_text = ''Click here to Download the Free PDF'', a_attrs = Map.empty\<rparr>"

definition other_anchor :: anchor where
  "other_anchor = \<lparr>a_text = ''Home'', a_attrs = [''href'' \<mapsto> ''/'']\<rparr>"

definition example_env :: "int \<Rightarrow> anchor list \<Rightarrow> int \<Rightarrow> bool \<Rightarrow> env" where
  "example_env page_status anchors pdf_status open_ok =
     \<lparr>today = example_today,
      http_get = (\<lambda>u. if u = example_page_url then Inr \<lparr>status_code = page_status, content = []\<rparr>
                      else if u = example_pdf_url then Inr \<lparr>status_code = pdf_status, content = example_pdf\<rparr>
                      else Inl (RequestException u)),
      find_all_a = (\<lambda>body. anchors),
      webbrowser_get = (\<lambda>n. if n = None \<or> n = Some ''firefox'' then Inr (Some ''firefox'')
                            else Inl (WebbrowserError ''could not locate runnable browser'')),
      open_new = (\<lambda>b u. Inr open_ok)\<rparr>"

definition example_dir :: path where
  "example_dir = [''calendars'']"

definition example_file :: path where
  "example_file = [''calendars'', ''2024june.pdf'']"

definition empty_world :: world where
  "empty_world = \<lparr>fs = Map.empty, requested = [], opened = []\<rparr>"

definition cached_fs :: filesystem where
  "cached_fs = [[''calendars''] \<mapsto> Dir, [''calendars'', ''2024june.pdf''] \<mapsto> File [0x6F, 0x6C, 0x64]]"

definition cached_world :: world where
  "cached_world = \<lparr>fs = cached_fs, requested = [], opened = []\<rparr>"

definition downloaded_world :: world where
  "downloaded_world =
     \<lparr>fs = [[''calendars''] \<mapsto> Dir, [''calendars'', ''2024june.pdf''] \<mapsto> File example_pdf],
      requested = [example_page_url, example_pdf_url], opened = []\<rparr>"

section \<open>Determinism of the cache key\<close>

lemma digit_cases: "d < 10 \<Longrightarrow> d \<in> {0,1,2,3,4,5,6,7,8,9::nat}"
  by auto

lemma digit_val_digit_char: "d < 10 \<Longrightarrow> digit_val (digit_char d) = d"
  using digit_cases[of d] by (auto simp: digit_val_def digit_char_def)

lemma is_digit_digit_char: "is_digit (digit_char d)"
proof -
  have "d mod 10 < 10" by simp
  from digit_cases[OF this] show ?thesis
    by (auto simp: is_digit_def digit_char_def)
qed

lemma nat_of_str_snoc: "nat_of_str (s @ [c]) = 10 * nat_of_str s + digit_val c"
  by (simp add: nat_of_str_def)

lemma nat_of_str_str_nat: "nat_of_str (str_nat n) = n"
proof (induction n rule: str_nat.induct)
  case (1 n)
  show ?case
  proof (cases "n < 10")
    case True
    then show ?thesis by (simp add: str_nat.simps[of n] nat_of_str_def digit_val_digit_char)
  next
    case False
    then show ?thesis using 1
      by (simp add: str_nat.simps[of n] nat_of_str_snoc digit_val_digit_char)
  qed
qed

lemma str_nat_digits: "c \<in> set (str_nat n) \<Longrightarrow> is_digit c"
proof (induction n rule: str_nat.induct)
  case (1 n)
  then show ?case
    by (cases "n < 10") (auto simp: str_nat.simps[of n] is_digit_digit_char)
qed

lemma lower_digit_all: "\<forall>c\<in>set ''0123456789''. lower_char c = c"
  by code_simp

lemma lower_digit: "is_digit c \<Longrightarrow> lower_char c = c"
  using lower_digit_all unfolding is_digit_def by blast

lemma lower_str_nat: "lower (str_nat n) = str_nat n"
  unfolding lower_def by (rule map_idI) (simp add: str_nat_digits lower_digit)

lemma lower_month_names_eq: "lower_month_names = [''january'', ''february'', ''march'', ''april'', ''may'', ''june'', ''july'',
      ''august'', ''september'', ''october'', ''november'', ''december'']"
  by code_simp

lemma distinct_lower_month_names: "distinct lower_month_names"
  by (simp add: lower_month_names_eq)

lemma lower_month_no_digit_all: "\<forall>s\<in>set lower_month_names. \<forall>c\<in>set s. \<not> is_digit c"
  by code_simp

lemma lower_month_no_digit: "s \<in> set lower_month_names \<Longrightarrow> c \<in> set s \<Longrightarrow> \<not> is_digit c"
  using lower_month_no_digit_all by blast


lemma split_at_class:
  assumes "\<forall>c\<in>set xs. P c" "\<forall>c\<in>set xs'. P c"
    and "\<forall>c\<in>set ys. \<not> P c" "\<forall>c\<in>set ys'. \<not> P c"
    and "xs @ ys = xs' @ ys'"
  shows "xs = xs' \<and> ys = ys'"
proof -
  have a: "takeWhile P (xs @ ys) = xs" using assms(1,3)
    by (metis append_Nil2 takeWhile_append2 takeWhile_eq_Nil_iff list.set_sel(1))
  have b: "takeWhile P (xs' @ ys') = xs'" using assms(2,4)
    by (metis append_Nil2 takeWhile_append2 takeWhile_eq_Nil_iff list.set_sel(1))
  from a b assms(5) have "xs = xs'" by simp
  with assms(5) show ?thesis by simp
qed

lemma length_month_names: "length month_names = 12"
  by (simp add: month_names_def)

lemma cache_key_eq:
  assumes "valid_date d"
  shows "cache_key d = str_nat (year d) @ lower_month_names ! (month d - 1)"
proof -
  have "month d - 1 < length month_names"
    using assms by (auto simp: valid_date_def length_month_names)
  then have "lower_month_names ! (month d - 1) = lower (month_names ! (month d - 1))"
    by (simp add: lower_month_names_def)
  moreover have "lower (strftime_YB d) = str_nat (year d) @ lower (strftime_B (month d))"
    by (simp add: strftime_YB_def lower_def lower_str_nat[unfolded lower_def])
  ultimately show ?thesis
    using assms by (simp add: cache_key_def strftime_B_def valid_date_def)
qed

lemma length_lower_month_names: "length lower_month_names = 12"
  by (simp add: lower_month_names_def month_names_def)

lemma cache_key_inj:
  assumes v1: "valid_date d1" and v2: "valid_date d2"
    and eq: "cache_key d1 = cache_key d2"
  shows "year d1 = year d2 \<and> month d1 = month d2"
proof -
  let ?m1 = "lower_month_names ! (month d1 - 1)" and ?m2 = "lower_month_names ! (month d2 - 1)"
  have i1: "month d1 - 1 < length lower_month_names" and i2: "month d2 - 1 < length lower_month_names"
    using v1 v2 by (auto simp: valid_date_def length_lower_month_names)
  then have m1: "?m1 \<in> set lower_month_names" and m2: "?m2 \<in> set lower_month_names"
    by simp_all
  have "str_nat (year d1) @ ?m1 = str_nat (year d2) @ ?m2"
    using eq v1 v2 by (simp add: cache_key_eq)
  moreover have "\<forall>c\<in>set (str_nat (year d1)). is_digit c" "\<forall>c\<in>set (str_nat (year d2)). is_digit c"
    by (simp_all add: str_nat_digits)
  moreover have "\<forall>c\<in>set ?m1. \<not> is_digit c" "\<forall>c\<in>set ?m2. \<not> is_digit c"
    using lower_month_no_digit[OF m1] lower_month_no_digit[OF m2] by blast+
  ultimately have s: "str_nat (year d1) = str_nat (year d2) \<and> ?m1 = ?m2"
    by (rule split_at_class[where P = is_digit, rotated 4])
  then have "nat_of_str (str_nat (year d1)) = nat_of_str (str_nat (year d2))" by simp
  then have y: "year d1 = year d2" by (simp add: nat_of_str_str_nat)
  from s have "month d1 - 1 = month d2 - 1"
    using distinct_lower_month_names i1 i2 by (simp add: nth_eq_iff_index_eq)
  then have "month d1 = month d2" using v1 v2 by (auto simp: valid_date_def)
  with y show ?thesis by simp
qed

lemma str_nat_four:
  assumes "1000 \<le> n" and "n \<le> 9999"
  shows "str_nat n = map (\<lambda>k. ''0123456789'' ! k)
           [n div 1000, n div 100 mod 10, n div 10 mod 10, n mod 10]"
proof -
  have a: "\<not> n < 10" "\<not> n div 10 < 10" "\<not> n div 100 < 10" "n div 1000 < 10"
    using assms by simp_all
  have d: "n div 10 div 10 = n div 100" "n div 100 div 10 = n div 1000"
    by (simp_all add: div_mult2_eq[symmetric])
  have "str_nat n = str_nat (n div 10) @ [digit_char (n mod 10)]"
    using a(1) by (simp add: str_nat.simps[of n])
  also have "str_nat (n div 10) = str_nat (n div 100) @ [digit_char (n div 10 mod 10)]"
    using a(2) d(1) by (simp add: str_nat.simps[of "n div 10"])
  also have "str_nat (n div 100) = str_nat (n div 1000) @ [digit_char (n div 100 mod 10)]"
    using a(3) d(2) by (simp add: str_nat.simps[of "n div 100"])
  also have "str_nat (n div 1000) = [digit_char (n div 1000)]"
    using a(4) by (simp add: str_nat.simps[of "n div 1000"])
  finally show ?thesis using a(4) by (simp add: digit_char_def)
qed

text \<open>
  Claim C5. The cache key is a function of the date alone: the four decimal digits of the
  year followed by the month name in lower case, written out here letter by letter. Two
  dates give the same cache file name exactly when they lie in the same month of the same
  year.
\<close>

theorem cache_key_determinism:
  assumes "valid_date d1" and "valid_date d2"
  shows "cache_key d1 = str_nat (year d1) @ lower (strftime_B (month d1))
     \<and> cache_key d1
         = map (\<lambda>k. ''0123456789'' ! k)
             [year d1 div 1000, year d1 div 100 mod 10, year d1 div 10 mod 10, year d1 mod 10]
           @ [''january'', ''february'', ''march'', ''april'', ''may'', ''june'', ''july'',
              ''august'', ''september'', ''october'', ''november'', ''december''] ! (month d1 - 1)
     \<and> (cache_file_name d1 = cache_file_name d2 \<longleftrightarrow> year d1 = year d2 \<and> month d1 = month d2)"
proof -
  have k: "cache_key d1 = str_nat (year d1) @ lower (strftime_B (month d1))"
    by (simp add: cache_key_def strftime_YB_def lower_def lower_str_nat[unfolded lower_def])
  have y: "1000 \<le> year d1" "year d1 \<le> 9999" using assms(1) by (simp_all add: valid_date_def)
  have x: "cache_key d1
         = map (\<lambda>k. ''0123456789'' ! k)
             [year d1 div 1000, year d1 div 100 mod 10, year d1 div 10 mod 10, year d1 mod 10]
           @ [''january'', ''february'', ''march'', ''april'', ''may'', ''june'', ''july'',
              ''august'', ''september'', ''october'', ''november'', ''december''] ! (month d1 - 1)"
    unfolding cache_key_eq[OF assms(1)] lower_month_names_eq str_nat_four[OF y] by (rule refl)
  have "cache_file_name d1 = cache_file_name d2 \<longleftrightarrow> cache_key d1 = cache_key d2"
    by (simp add: cache_file_name_def)
  moreover have "cache_key d1 = cache_key d2 \<longleftrightarrow> year d1 = year d2 \<and> month d1 = month d2"
    using cache_key_inj[OF assms] by (auto simp: cache_key_def strftime_YB_def)
  ultimately show ?thesis using k x by simp
qed

theorem cache_key_determinism_witness:
  "valid_date \<lparr>year = 2024, month = 6, day = 1\<rparr> \<and> valid_date \<lparr>year = 2024, month = 6, day = 30\<rparr>
   \<and> valid_date \<lparr>year = 2024, month = 7, day = 1\<rparr>
   \<and> valid_date \<lparr>year = 1999, month = 3, day = 8\<rparr>
   \<and> cache_file_name \<lparr>year = 2024, month = 6, day = 1\<rparr> = ''2024june.pdf''
   \<and> cache_key \<lparr>year = 2024, month = 6, day = 1\<rparr> = ''2024june''
   \<and> cache_key \<lparr>year = 1999, month = 3, day = 8\<rparr> = ''1999march''
   \<and> cache_file_name \<lparr>year = 2024, month = 6, day = 1\<rparr> = cache_file_name \<lparr>year = 2024, month = 6, day = 30\<rparr>
   \<and> cache_file_name \<lparr>year = 2024, month = 6, day = 1\<rparr> \<noteq> cache_file_name \<lparr>year = 2024, month = 7, day = 1\<rparr>"
proof -
  have v1: "valid_date \<lparr>year = 2024, month = 6, day = 1\<rparr>"
    and v2: "valid_date \<lparr>year = 2024, month = 6, day = 30\<rparr>"
    and v3: "valid_date \<lparr>year = 2024, month = 7, day = 1\<rparr>"
    and v4: "valid_date \<lparr>year = 1999, month = 3, day = 8\<rparr>"
    by (simp_all add: valid_date_def)
  have k1: "cache_key \<lparr>year = 2024, month = 6, day = 1\<rparr> = ''2024june''"
    using cache_key_determinism[OF v1 v2, THEN conjunct2, THEN conjunct1] by simp
  have k2: "cache_key \<lparr>year = 1999, month = 3, day = 8\<rparr> = ''1999march''"
    using cache_key_determinism[OF v4 v4, THEN conjunct2, THEN conjunct1] by simp
  have n: "cache_file_name \<lparr>year = 2024, month = 6, day = 1\<rparr> = ''2024june.pdf''"
    using k1 by (simp add: cache_file_name_def)
  show ?thesis
    using v1 v2 v3 v4 n k1 k2 cache_key_determinism[OF v1 v2, THEN conjunct2, THEN conjunct2]
      cache_key_determinism[OF v1 v3, THEN conjunct2, THEN conjunct2] by simp
qed


section \<open>Facts about the filesystem\<close>

lemma stat_from_snoc:
  "stat_from m pre (p @ [c]) = (if stat_from m pre p = Some Dir then m (pre @ p @ [c]) else None)"
proof (induction p arbitrary: pre)
  case Nil
  show ?case by (simp split: option.splits node.splits)
next
  case (Cons x xs)
  show ?case using Cons.IH[of "pre @ [x]"]
    by (simp split: option.splits node.splits)
qed

lemma stat_snoc:
  "stat m (p @ [c]) = (if stat m p = Some Dir then m (p @ [c]) else None)"
  by (simp add: stat_def stat_from_snoc)

lemma path_exists_snoc:
  "path_exists m (p @ [c]) \<longleftrightarrow> stat m p = Some Dir \<and> m (p @ [c]) \<noteq> None"
  by (simp add: path_exists_def stat_snoc)

lemma new_dir_above: "prefix q pre \<Longrightarrow> new_dir m (pre @ [c]) q = m q"
  by (auto simp: new_dir_def prefix_def strict_prefix_def)

lemma mkdir_from_noop:
  "stat_from m pre p = Some Dir \<Longrightarrow> mkdir_from m pre p = Inr m"
  by (induction p arbitrary: pre) (auto split: option.splits node.splits if_splits)

lemma mkdir_from_above:
  "mkdir_from m pre p = Inr m' \<Longrightarrow> prefix q pre \<Longrightarrow> m' q = m q"
proof (induction p arbitrary: m pre)
  case Nil
  then show ?case by simp
next
  case (Cons c cs)
  have q: "prefix q (pre @ [c])" using Cons.prems(2) by (rule prefix_prefix)
  show ?case
  proof (cases "m (pre @ [c])")
    case None
    with Cons.prems have "mkdir_from (new_dir m (pre @ [c])) (pre @ [c]) cs = Inr m'" by simp
    from Cons.IH[OF this q] show ?thesis using new_dir_above[OF Cons.prems(2)] by simp
  next
    case (Some n)
    with Cons.prems have "n = Dir" "mkdir_from m (pre @ [c]) cs = Inr m'"
      by (auto split: node.splits)
    from Cons.IH[OF this(2) q] show ?thesis .
  qed
qed

lemma mkdir_from_is_dir:
  "mkdir_from m pre p = Inr m' \<Longrightarrow> stat_from m' pre p = Some Dir"
proof (induction p arbitrary: m pre)
  case Nil
  then show ?case by simp
next
  case (Cons c cs)
  show ?case
  proof (cases "m (pre @ [c])")
    case None
    with Cons.prems have m: "mkdir_from (new_dir m (pre @ [c])) (pre @ [c]) cs = Inr m'" by simp
    have "m' (pre @ [c]) = new_dir m (pre @ [c]) (pre @ [c])"
      by (rule mkdir_from_above[OF m]) simp
    then have "m' (pre @ [c]) = Some Dir" by (simp add: new_dir_def)
    with Cons.IH[OF m] show ?thesis by simp
  next
    case (Some n)
    with Cons.prems have n: "n = Dir" and m: "mkdir_from m (pre @ [c]) cs = Inr m'"
      by (auto split: node.splits)
    have "m' (pre @ [c]) = m (pre @ [c])"
      by (rule mkdir_from_above[OF m]) simp
    with Cons.IH[OF m] Some n show ?thesis by simp
  qed
qed

lemma mkdir_from_no_files:
  "mkdir_from m pre p = Inr m' \<Longrightarrow> m' q = Some (File b) \<Longrightarrow> m q = Some (File b)"
proof (induction p arbitrary: m pre)
  case Nil
  then show ?case by simp
next
  case (Cons c cs)
  show ?case
  proof (cases "m (pre @ [c])")
    case None
    with Cons.prems have m: "mkdir_from (new_dir m (pre @ [c])) (pre @ [c]) cs = Inr m'" by simp
    from Cons.IH[OF m Cons.prems(2)] show ?thesis
      by (auto simp: new_dir_def split: if_splits)
  next
    case (Some n)
    with Cons.prems have m: "mkdir_from m (pre @ [c]) cs = Inr m'"
      by (auto split: node.splits)
    from Cons.IH[OF m Cons.prems(2)] show ?thesis .
  qed
qed

lemma mkdir_from_fails:
  "mkdir_from m pre p = Inl x \<Longrightarrow> stat_from m pre p \<noteq> Some Dir"
  using mkdir_from_noop by fastforce

lemma strict_prefix_below: "strict_prefix (xs @ ys) q \<Longrightarrow> strict_prefix xs q"
  by (metis prefix_order.dual_order.strict_trans2 prefixI)

lemma mkdir_from_below_absent:
  "mkdir_from m pre p = Inr m' \<Longrightarrow> m q = None \<Longrightarrow> strict_prefix (pre @ p) q \<Longrightarrow> m' q = None"
proof (induction p arbitrary: m pre)
  case Nil
  then show ?case by simp
next
  case (Cons c cs)
  have s: "strict_prefix ((pre @ [c]) @ cs) q" using Cons.prems(3) by simp
  show ?case
  proof (cases "m (pre @ [c])")
    case None
    with Cons.prems have m: "mkdir_from (new_dir m (pre @ [c])) (pre @ [c]) cs = Inr m'" by simp
    have "strict_prefix (pre @ [c]) q" using s by (rule strict_prefix_below)
    then have "new_dir m (pre @ [c]) q = None"
      by (auto simp: new_dir_def)
    from Cons.IH[OF m this s] show ?thesis .
  next
    case (Some n)
    with Cons.prems have m: "mkdir_from m (pre @ [c]) cs = Inr m'"
      by (auto split: node.splits)
    from Cons.IH[OF m Cons.prems(2) s] show ?thesis .
  qed
qed

lemma mkdir_from_below_fresh:
  "mkdir_from m pre p = Inr m' \<Longrightarrow> stat_from m pre p \<noteq> Some Dir \<Longrightarrow> strict_prefix (pre @ p) q
     \<Longrightarrow> m' q = None"
proof (induction p arbitrary: m pre)
  case Nil
  then show ?case by simp
next
  case (Cons c cs)
  have s: "strict_prefix ((pre @ [c]) @ cs) q" using Cons.prems(3) by simp
  show ?case
  proof (cases "m (pre @ [c])")
    case None
    with Cons.prems have m: "mkdir_from (new_dir m (pre @ [c])) (pre @ [c]) cs = Inr m'" by simp
    have "strict_prefix (pre @ [c]) q" using s by (rule strict_prefix_below)
    then have "new_dir m (pre @ [c]) q = None"
      by (auto simp: new_dir_def)
    from mkdir_from_below_absent[OF m this s] show ?thesis .
  next
    case (Some n)
    with Cons.prems have n: "n = Dir" and m: "mkdir_from m (pre @ [c]) cs = Inr m'"
      by (auto split: node.splits)
    have "stat_from m (pre @ [c]) cs \<noteq> Some Dir" using Cons.prems(2) Some n by simp
    from Cons.IH[OF m this s] show ?thesis .
  qed
qed

lemma mkdir_from_below_kept:
  "mkdir_from m pre p = Inr m' \<Longrightarrow> stat_from m pre p = Some Dir \<Longrightarrow> m' = m"
  using mkdir_from_noop by fastforce

lemma mkdir_parents_noop: "stat m p = Some Dir \<Longrightarrow> mkdir_parents m p = Inr m"
  by (simp add: stat_def mkdir_parents_def mkdir_from_noop)

lemma mkdir_parents_is_dir: "mkdir_parents m p = Inr m' \<Longrightarrow> stat m' p = Some Dir"
  by (simp add: stat_def mkdir_parents_def mkdir_from_is_dir)

lemma mkdir_parents_no_files:
  "mkdir_parents m p = Inr m' \<Longrightarrow> m' q = Some (File b) \<Longrightarrow> m q = Some (File b)"
  unfolding mkdir_parents_def by (rule mkdir_from_no_files)

lemma mkdir_parents_fails: "mkdir_parents m p = Inl x \<Longrightarrow> stat m p \<noteq> Some Dir"
  unfolding mkdir_parents_def stat_def by (rule mkdir_from_fails)

lemma mkdir_parents_child:
  assumes "mkdir_parents m p = Inr m'"
  shows "m' (p @ [c]) = (if stat m p = Some Dir then m (p @ [c]) else None)"
proof (cases "stat m p = Some Dir")
  case True
  then show ?thesis using assms by (simp add: mkdir_parents_noop)
next
  case False
  have "strict_prefix ([] @ p) (p @ [c])" by (simp add: strict_prefix_def)
  from mkdir_from_below_fresh[OF assms[unfolded mkdir_parents_def] False[unfolded stat_def] this]
  show ?thesis using False by simp
qed

lemma mkdir_parents_stat_child:
  assumes "mkdir_parents m p = Inr m'"
  shows "stat m' (p @ [c]) = stat m (p @ [c])"
  using mkdir_parents_child[OF assms] mkdir_parents_is_dir[OF assms]
  by (simp add: stat_snoc)

section \<open>Facts about the Fetcher\<close>

lemma get_calendar_unfold:
  "get_calendar e w dir page_url force_dl =
     (case mkdir_parents (fs w) dir of
        Inl x \<Rightarrow> (Inl x, w)
      | Inr fs1 \<Rightarrow>
          let file = dir @ [cache_file_name (today e)] in
          (case (if force_dl \<and> path_exists fs1 file then unlink fs1 file else Inr fs1) of
             Inl x \<Rightarrow> (Inl x, w\<lparr>fs := fs1\<rparr>)
           | Inr fs2 \<Rightarrow>
               if path_exists fs2 file then (Inr file, w\<lparr>fs := fs2\<rparr>)
               else download e (w\<lparr>fs := fs2\<rparr>) file page_url))"
  unfolding get_calendar_def download_def Let_def by (rule refl)

lemma stat_from_update_other:
  "\<not> prefix q (pre @ p) \<Longrightarrow> stat_from (m(q := v)) pre p = stat_from m pre p"
proof (induction p arbitrary: pre)
  case Nil
  show ?case by simp
next
  case (Cons c cs)
  have "q \<noteq> pre @ [c]" using Cons.prems by (auto simp: prefix_def)
  moreover have "\<not> prefix q ((pre @ [c]) @ cs)" using Cons.prems by simp
  ultimately show ?case using Cons.IH[of "pre @ [c]"]
    by (simp split: option.splits node.splits)
qed

lemma stat_update_child: "stat (m(p @ [c] := v)) p = stat m p"
  unfolding stat_def by (rule stat_from_update_other) (simp add: prefix_def)

lemma unlink_snoc:
  "unlink m (p @ [c]) =
     (case stat m (p @ [c]) of
        None \<Rightarrow> Inl (FileNotFoundError (path_str (p @ [c])))
      | Some Dir \<Rightarrow> Inl IsADirectoryError
      | Some (File b) \<Rightarrow> Inr (m(p @ [c] := None)))"
  by (simp add: unlink_def)

lemma stat_removed: "stat (m(p @ [c] := None)) (p @ [c]) = None"
  by (simp add: stat_snoc)

lemma write_bytes_child:
  "stat m p = Some Dir \<Longrightarrow> m (p @ [c]) = None \<Longrightarrow> write_bytes m (p @ [c]) data = Inr (m(p @ [c] \<mapsto> File data))"
  by (simp add: write_bytes_def stat_snoc)

lemma stat_written:
  "stat m p = Some Dir \<Longrightarrow> stat (m(p @ [c] \<mapsto> File data)) (p @ [c]) = Some (File data)"
  by (simp add: stat_snoc stat_update_child)

lemma get_calendar_mkdir_fails:
  "mkdir_parents (fs w) dir = Inl x \<Longrightarrow> get_calendar e w dir page_url force_dl = (Inl x, w)"
  by (simp add: get_calendar_unfold)

lemma get_calendar_cases:
  assumes mk: "mkdir_parents (fs w) dir = Inr fs1"
  shows "get_calendar e w dir page_url force_dl =
     (case stat (fs w) (dir @ [cache_file_name (today e)]) of
        None \<Rightarrow> download e (w\<lparr>fs := fs1\<rparr>) (dir @ [cache_file_name (today e)]) page_url
      | Some Dir \<Rightarrow>
          if force_dl then (Inl IsADirectoryError, w) else (Inr (dir @ [cache_file_name (today e)]), w)
      | Some (File b) \<Rightarrow>
          if force_dl then
            download e (w\<lparr>fs := (fs w)(dir @ [cache_file_name (today e)] := None)\<rparr>)
              (dir @ [cache_file_name (today e)]) page_url
          else (Inr (dir @ [cache_file_name (today e)]), w))"
proof -
  let ?file = "dir @ [cache_file_name (today e)]"
  have st: "stat fs1 ?file = stat (fs w) ?file" by (rule mkdir_parents_stat_child[OF mk])
  show ?thesis
  proof (cases "stat (fs w) ?file")
    case None
    then show ?thesis using mk st
      by (simp add: get_calendar_unfold Let_def path_exists_def)
  next
    case (Some n)
    then have "stat (fs w) dir = Some Dir" by (simp add: stat_snoc split: if_splits)
    then have eq: "fs1 = fs w" using mk by (simp add: mkdir_parents_noop)
    show ?thesis using Some mk eq
      by (cases n) (simp_all add: get_calendar_unfold Let_def path_exists_def unlink_snoc stat_removed)
  qed
qed


lemma dl_links_filter:
  "\<forall>a\<in>set as. is_dl_anchor a \<longrightarrow> a_attrs a ''href'' \<noteq> None \<Longrightarrow>
   dl_links as = Inr (map (\<lambda>a. the (a_attrs a ''href'')) (filter is_dl_anchor as))"
  by (induction as) auto

lemma dl_links_Inr:
  "dl_links as = Inr hs \<Longrightarrow> a \<in> set as \<Longrightarrow> is_dl_anchor a \<Longrightarrow> a_attrs a ''href'' \<noteq> None"
  by (induction as arbitrary: hs) (auto split: option.splits sum.splits if_splits)

lemma dl_links_outcome:
  "dl_links as = Inl x \<Longrightarrow> x = KeyError ''href''"
  by (induction as) (auto split: option.splits sum.splits if_splits)

lemma dl_links_missing:
  assumes "a \<in> set as" and "is_dl_anchor a" and "a_attrs a ''href'' = None"
  shows "dl_links as = Inl (KeyError ''href'')"
proof (cases "dl_links as")
  case (Inl x)
  then show ?thesis using dl_links_outcome by simp
next
  case (Inr hs)
  from dl_links_Inr[OF this assms(1,2)] assms(3) show ?thesis by simp
qed

lemma download_no_url:
  "page_url = None \<or> page_url = Some [] \<Longrightarrow>
   download e w2 file page_url = (Inl (ValueError ''No page URL provided.''), w2)"
  by (auto simp: download_def)

lemma download_page:
  assumes "u \<noteq> []" and "http_get e u = Inr r"
  shows "download e w2 file (Some u) =
     (if status_code r \<noteq> 200 then
        (Inl (ConnectionError (''Failed to retrieve calendar from '' @ quoted u @ status_line (status_code r))),
         w2\<lparr>requested := requested w2 @ [u]\<rparr>)
      else
        (case dl_links (find_all_a e (content r)) of
           Inl x \<Rightarrow> (Inl x, w2\<lparr>requested := requested w2 @ [u]\<rparr>)
         | Inr links \<Rightarrow>
             if links = [] then
               (Inl (ValueError (''No download links found for search string '' @ quoted search_str)),
                w2\<lparr>requested := requested w2 @ [u]\<rparr>)
             else if length links \<noteq> 1 then
               (Inl (ValueError (''Multiple download links found for search string '' @ quoted search_str)),
                w2\<lparr>requested := requested w2 @ [u]\<rparr>)
             else
               (case http_get e (links ! 0) of
                  Inl x \<Rightarrow> (Inl x, w2\<lparr>requested := requested w2 @ [u, links ! 0]\<rparr>)
                | Inr r2 \<Rightarrow>
                    if status_code r2 \<noteq> 200 then
                      (Inl (ConnectionError (''Failed to download PDF from '' @ quoted (links ! 0)
                              @ status_line (status_code r2))),
                       w2\<lparr>requested := requested w2 @ [u, links ! 0]\<rparr>)
                    else
                      (case write_bytes (fs w2) file (content r2) of
                         Inl x \<Rightarrow> (Inl x, w2\<lparr>requested := requested w2 @ [u, links ! 0]\<rparr>)
                       | Inr fs5 \<Rightarrow> (Inr file, w2\<lparr>requested := requested w2 @ [u, links ! 0], fs := fs5\<rparr>)))))"
  using assms
  by (simp add: download_def requests_get_def Let_def split: sum.splits)

lemma download_fails_fs:
  "download e w2 file page_url = (Inl x, w') \<Longrightarrow> fs w' = fs w2"
  by (auto simp: download_def requests_get_def Let_def split: sum.splits if_splits)

lemma download_succeeds:
  assumes "download e w2 file page_url = (Inr p, w')"
  shows "p = file \<and> (\<exists>u link r. page_url = Some u \<and> u \<noteq> [] \<and> requested w' = requested w2 @ [u, link]
           \<and> http_get e link = Inr r \<and> status_code r = 200
           \<and> write_bytes (fs w2) file (content r) = Inr (fs w') \<and> opened w' = opened w2)"
  using assms
  by (auto simp: download_def requests_get_def Let_def split: sum.splits if_splits)

section \<open>The cache check\<close>

lemma write_bytes_result:
  "write_bytes m (p @ [c]) data = Inr m' \<Longrightarrow> stat m p = Some Dir \<and> m' = m(p @ [c] \<mapsto> File data)"
  by (auto simp: write_bytes_def split: option.splits node.splits if_splits)

lemma get_calendar_hit:
  assumes "path_exists (fs w) (dir @ [cache_file_name (today e)])"
  shows "get_calendar e w dir page_url False = (Inr (dir @ [cache_file_name (today e)]), w)"
proof -
  from assms have "stat (fs w) dir = Some Dir" by (simp add: path_exists_snoc)
  then have "mkdir_parents (fs w) dir = Inr (fs w)" by (rule mkdir_parents_noop)
  from get_calendar_cases[OF this] assms show ?thesis
    by (auto simp: path_exists_def split: node.splits)
qed

lemma download_success_exists:
  assumes "download e w2 (dir @ [n]) page_url = (Inr p, w')"
  shows "p = dir @ [n] \<and> path_exists (fs w') (dir @ [n])"
proof -
  from download_succeeds[OF assms] obtain r :: response where
    p: "p = dir @ [n]" and wr: "write_bytes (fs w2) (dir @ [n]) (content r) = Inr (fs w')"
    by blast
  from write_bytes_result[OF wr] have "stat (fs w') (dir @ [n]) = Some (File (content r))"
    by (simp add: stat_written)
  with p show ?thesis by (simp add: path_exists_def)
qed

lemma get_calendar_success:
  assumes "get_calendar e w dir page_url force_dl = (Inr p, w')"
  shows "p = dir @ [cache_file_name (today e)] \<and> path_exists (fs w') (dir @ [cache_file_name (today e)])"
proof (cases "mkdir_parents (fs w) dir")
  case (Inl x)
  from get_calendar_mkdir_fails[OF this] assms show ?thesis by simp
next
  case (Inr fs1)
  let ?file = "dir @ [cache_file_name (today e)]"
  show ?thesis
  proof (cases "stat (fs w) ?file")
    case None
    with get_calendar_cases[OF Inr] assms
    have "download e (w\<lparr>fs := fs1\<rparr>) ?file page_url = (Inr p, w')" by simp
    then show ?thesis by (rule download_success_exists)
  next
    case (Some nd)
    show ?thesis
    proof (cases "force_dl \<and> nd \<noteq> Dir")
      case True
      with Some get_calendar_cases[OF Inr, of e page_url force_dl] assms
      have "download e (w\<lparr>fs := (fs w)(?file := None)\<rparr>) ?file page_url = (Inr p, w')"
        by (cases nd) simp_all
      then show ?thesis by (rule download_success_exists)
    next
      case False
      with Some get_calendar_cases[OF Inr, of e page_url force_dl] assms
      show ?thesis by (cases nd) (auto simp: path_exists_def split: if_splits)
    qed
  qed
qed

text \<open>
  Claim C1. When the file for the current month exists and \<open>force_dl\<close> is false, the
  call returns its path and leaves the world as it was: no request is sent and the
  filesystem is unchanged. Hence a second call with the same arguments after a successful
  one returns the same path and changes nothing.
\<close>

theorem cached_artifact_reused:
  "(path_exists (fs w) (dir @ [cache_file_name (today e)]) \<longrightarrow>
      get_calendar e w dir page_url False = (Inr (dir @ [cache_file_name (today e)]), w))
   \<and> (\<forall>p w1. get_calendar e w dir page_url False = (Inr p, w1) \<longrightarrow>
         get_calendar e w1 dir page_url False = (Inr p, w1))"
proof (intro conjI allI impI)
  assume "path_exists (fs w) (dir @ [cache_file_name (today e)])"
  then show "get_calendar e w dir page_url False = (Inr (dir @ [cache_file_name (today e)]), w)"
    by (rule get_calendar_hit)
next
  fix p w1
  assume "get_calendar e w dir page_url False = (Inr p, w1)"
  from get_calendar_success[OF this]
  show "get_calendar e w1 dir page_url False = (Inr p, w1)"
    by (simp add: get_calendar_hit)
qed

lemma example_name: "cache_file_name example_today = ''2024june.pdf''"
  by (simp add: example_today_def cache_file_name_def cache_key_def strftime_YB_def strftime_B_def
      month_names_def lower_def lower_char_def str_nat.simps digit_char_def)

lemma example_page_url_nonempty: "example_page_url \<noteq> []"
  by (simp add: example_page_url_def)

lemma example_env_sel:
  "today (example_env ps as ds ok) = example_today"
  "http_get (example_env ps as ds ok) example_page_url = Inr \<lparr>status_code = ps, content = []\<rparr>"
  "http_get (example_env ps as ds ok) example_pdf_url = Inr \<lparr>status_code = ds, content = example_pdf\<rparr>"
  "find_all_a (example_env ps as ds ok) body = as"
  "open_new (example_env ps as ds ok) b u = Inr ok"
  by (simp_all add: example_env_def example_page_url_def example_pdf_url_def)

lemma example_file_eq: "example_dir @ [cache_file_name (today (example_env ps as ds ok))] = example_file"
  by (simp add: example_env_sel example_name example_dir_def example_file_def)

lemma example_mkdir: "mkdir_parents (fs empty_world) example_dir = Inr [[''calendars''] \<mapsto> Dir]"
  by (auto simp: mkdir_parents_def empty_world_def example_dir_def new_dir_def)

lemma example_dl_anchor:
  "is_dl_anchor dl_anchor" "a_attrs dl_anchor ''href'' = Some example_pdf_url"
  "is_dl_anchor bare_anchor" "a_attrs bare_anchor ''href'' = None"
  by (simp_all add: is_dl_anchor_def dl_anchor_def bare_anchor_def str_in_def search_str_def)

lemma example_other_anchor: "\<not> is_dl_anchor other_anchor"
proof
  assume "is_dl_anchor other_anchor"
  then have "length search_str \<le> length (a_text other_anchor)"
    unfolding is_dl_anchor_def str_in_def by (rule sublist_length_le)
  then show False by (simp add: search_str_def other_anchor_def)
qed

lemma example_links:
  "dl_links (find_all_a (example_env ps [dl_anchor] ds ok) body) = Inr [example_pdf_url]"
  by (simp add: example_env_sel example_dl_anchor)

lemma example_write:
  "write_bytes [[''calendars''] \<mapsto> Dir] example_file example_pdf
     = Inr [[''calendars''] \<mapsto> Dir, [''calendars'', ''2024june.pdf''] \<mapsto> File example_pdf]"
  by (simp add: write_bytes_def example_file_def stat_def)

lemma example_download:
  "download (example_env 200 [dl_anchor] 200 ok) (empty_world\<lparr>fs := [[''calendars''] \<mapsto> Dir]\<rparr>)
      example_file (Some example_page_url) = (Inr example_file, downloaded_world)"
proof -
  have u: "example_page_url \<noteq> []" by (simp add: example_page_url_def)
  show ?thesis
    unfolding download_page[OF u example_env_sel(2)]
    by (simp add: example_links example_env_sel(3) example_write downloaded_world_def empty_world_def)
qed

lemma example_first_call:
  "get_calendar (example_env 200 [dl_anchor] 200 ok) empty_world example_dir (Some example_page_url) False
     = (Inr example_file, downloaded_world)"
proof -
  let ?e = "example_env 200 [dl_anchor] 200 ok"
  have st: "stat (fs empty_world) example_file = None"
    by (simp add: stat_def empty_world_def example_file_def)
  show ?thesis
    unfolding get_calendar_cases[OF example_mkdir] example_file_eq
    by (simp add: st example_download)
qed

theorem cached_artifact_reused_witness:
  "path_exists (fs cached_world) (example_dir @ [cache_file_name (today (example_env 200 [dl_anchor] 200 True))])
   \<and> get_calendar (example_env 200 [dl_anchor] 200 True) cached_world example_dir None False
        = (Inr example_file, cached_world)
   \<and> get_calendar (example_env 200 [dl_anchor] 200 True) empty_world example_dir (Some example_page_url) False
        = (Inr example_file, downloaded_world)
   \<and> get_calendar (example_env 200 [dl_anchor] 200 True) downloaded_world example_dir (Some example_page_url) False
        = (Inr example_file, downloaded_world)"
proof -
  let ?e = "example_env 200 [dl_anchor] 200 True"
  have ex: "path_exists (fs cached_world) (example_dir @ [cache_file_name (today ?e)])"
    by (simp add: example_file_eq path_exists_def stat_def cached_world_def cached_fs_def example_file_def)
  have first: "get_calendar ?e empty_world example_dir (Some example_page_url) False
      = (Inr example_file, downloaded_world)"
    by (rule example_first_call)
  note hit = cached_artifact_reused[of cached_world example_dir ?e None, THEN conjunct1, rule_format, OF ex]
  note again = cached_artifact_reused[of empty_world example_dir ?e "Some example_page_url",
      THEN conjunct2, rule_format, OF first]
  show ?thesis
    using ex first hit again by (simp only: example_file_eq simp_thms)
qed

section \<open>Failures and what they leave behind\<close>

lemma cached_mkdir: "mkdir_parents (fs cached_world) example_dir = Inr cached_fs"
  by (simp add: mkdir_parents_def cached_world_def cached_fs_def example_dir_def)

lemma cached_stat: "stat (fs cached_world) example_file = Some (File [0x6F, 0x6C, 0x64])"
  by (simp add: stat_def cached_world_def cached_fs_def example_file_def)

lemma example_requested: "requested empty_world = []" "requested cached_world = []"
  by (simp_all add: empty_world_def cached_world_def)

lemma empty_stat: "stat (fs empty_world) example_file = None"
  by (simp add: stat_def empty_world_def example_file_def)

text \<open>
  Claim C6. Once the target directory is in place: if the file for the current month does
  not exist, or is a regular file and \<open>force_dl\<close> is set (so that it has just been
  deleted), a missing or empty page URL makes the call fail with
  \<^verbatim>\<open>ValueError("No page URL provided.")\<close>. If the file exists and \<open>force_dl\<close> is false, the
  call succeeds without a page URL.
\<close>

theorem missing_page_url:
  assumes "mkdir_parents (fs w) dir = Inr fs1"
    and "page_url = None \<or> page_url = Some []"
  shows "(\<not> path_exists (fs w) (dir @ [cache_file_name (today e)]) \<longrightarrow>
            get_calendar e w dir page_url force_dl
              = (Inl (ValueError ''No page URL provided.''), w\<lparr>fs := fs1\<rparr>))
       \<and> (force_dl \<and> (\<exists>b. stat (fs w) (dir @ [cache_file_name (today e)]) = Some (File b)) \<longrightarrow>
            get_calendar e w dir page_url force_dl
              = (Inl (ValueError ''No page URL provided.''),
                 w\<lparr>fs := (fs w)(dir @ [cache_file_name (today e)] := None)\<rparr>))
       \<and> (\<not> force_dl \<and> path_exists (fs w) (dir @ [cache_file_name (today e)]) \<longrightarrow>
            get_calendar e w dir page_url force_dl = (Inr (dir @ [cache_file_name (today e)]), w))"
  using get_calendar_cases[OF assms(1), of e page_url force_dl] download_no_url[OF assms(2)]
  by (auto simp: path_exists_def split: node.splits)

theorem missing_page_url_witness:
  "mkdir_parents (fs empty_world) example_dir = Inr [[''calendars''] \<mapsto> Dir]
   \<and> \<not> path_exists (fs empty_world) example_file
   \<and> get_calendar (example_env 200 [dl_anchor] 200 True) empty_world example_dir None False
        = (Inl (ValueError ''No page URL provided.''), empty_world\<lparr>fs := [[''calendars''] \<mapsto> Dir]\<rparr>)
   \<and> mkdir_parents (fs cached_world) example_dir = Inr cached_fs
   \<and> stat (fs cached_world) example_file = Some (File [0x6F, 0x6C, 0x64])
   \<and> get_calendar (example_env 200 [dl_anchor] 200 True) cached_world example_dir (Some []) True
        = (Inl (ValueError ''No page URL provided.''), cached_world\<lparr>fs := (fs cached_world)(example_file := None)\<rparr>)
   \<and> get_calendar (example_env 200 [dl_anchor] 200 True) cached_world example_dir None False
        = (Inr example_file, cached_world)"
proof -
  let ?e = "example_env 200 [dl_anchor] 200 True"
  have a: "\<not> path_exists (fs empty_world) (example_dir @ [cache_file_name (today ?e)])"
    by (simp add: example_file_eq path_exists_def empty_stat)
  have b: "True \<and> (\<exists>b. stat (fs cached_world) (example_dir @ [cache_file_name (today ?e)]) = Some (File b))"
    by (simp add: example_file_eq cached_stat)
  have c: "\<not> False \<and> path_exists (fs cached_world) (example_dir @ [cache_file_name (today ?e)])"
    by (simp add: example_file_eq path_exists_def cached_stat)
  note t1 = missing_page_url[OF example_mkdir, of None ?e False, THEN conjunct1, rule_format, OF _ a]
  note t2 = missing_page_url[OF cached_mkdir, of "Some []" ?e True, THEN conjunct2, THEN conjunct1, rule_format, OF _ b]
  note t3 = missing_page_url[OF cached_mkdir, of None ?e False, THEN conjunct2, THEN conjunct2, rule_format, OF _ c]
  show ?thesis
    using a t1 t2 t3 example_mkdir cached_mkdir cached_stat
    by (simp add: example_file_eq)
qed

text \<open>
  Claim C10. With \<open>force_dl\<close> set and a regular file cached for the current month, the file
  is unlinked before the page URL is looked at and before any request: a call without a
  page URL fails with the file gone, and so does every other failing call. Nothing puts
  the file back.
\<close>

theorem forced_refresh_not_rolled_back:
  assumes "stat (fs w) (dir @ [cache_file_name (today e)]) = Some (File b)"
  shows "(page_url = None \<or> page_url = Some [] \<longrightarrow>
            get_calendar e w dir page_url True
              = (Inl (ValueError ''No page URL provided.''),
                 w\<lparr>fs := (fs w)(dir @ [cache_file_name (today e)] := None)\<rparr>))
       \<and> (\<forall>x w'. get_calendar e w dir page_url True = (Inl x, w') \<longrightarrow>
            fs w' = (fs w)(dir @ [cache_file_name (today e)] := None)
            \<and> \<not> path_exists (fs w') (dir @ [cache_file_name (today e)]))"
proof -
  let ?file = "dir @ [cache_file_name (today e)]"
  from assms have "stat (fs w) dir = Some Dir" by (simp add: stat_snoc split: if_splits)
  then have "mkdir_parents (fs w) dir = Inr (fs w)" by (rule mkdir_parents_noop)
  from get_calendar_cases[OF this, of e page_url True] assms
  have g: "get_calendar e w dir page_url True = download e (w\<lparr>fs := (fs w)(?file := None)\<rparr>) ?file page_url"
    by simp
  show ?thesis
  proof (intro conjI allI impI)
    assume "page_url = None \<or> page_url = Some []"
    then show "get_calendar e w dir page_url True
        = (Inl (ValueError ''No page URL provided.''), w\<lparr>fs := (fs w)(?file := None)\<rparr>)"
      unfolding g by (rule download_no_url)
  next
    fix x w'
    assume "get_calendar e w dir page_url True = (Inl x, w')"
    then have "fs w' = (fs w)(?file := None)"
      unfolding g by (simp add: download_fails_fs)
    then show "fs w' = (fs w)(?file := None)" and "\<not> path_exists (fs w') ?file"
      by (simp_all add: path_exists_def stat_removed)
  qed
qed

lemma page_status_failure:
  assumes "ps \<noteq> 200"
  shows "download (example_env ps as ds ok) w2 file (Some example_page_url)
     = (Inl (ConnectionError (''Failed to retrieve calendar from '' @ quoted example_page_url @ status_line ps)),
        w2\<lparr>requested := requested w2 @ [example_page_url]\<rparr>)"
proof -
  have u: "example_page_url \<noteq> []" by (simp add: example_page_url_def)
  show ?thesis unfolding download_page[OF u example_env_sel(2)] using assms by simp
qed

theorem forced_refresh_not_rolled_back_witness:
  "stat (fs cached_world) example_file = Some (File [0x6F, 0x6C, 0x64])
   \<and> get_calendar (example_env 500 [] 200 True) cached_world example_dir (Some example_page_url) True
       = (Inl (ConnectionError (''Failed to retrieve calendar from '' @ quoted example_page_url @ status_line 500)),
          cached_world\<lparr>fs := (fs cached_world)(example_file := None), requested := [example_page_url]\<rparr>)
   \<and> \<not> path_exists ((fs cached_world)(example_file := None)) example_file"
proof -
  let ?e = "example_env 500 [] 200 True"
  have st: "stat (fs cached_world) (example_dir @ [cache_file_name (today ?e)]) = Some (File [0x6F, 0x6C, 0x64])"
    by (simp add: example_file_eq cached_stat)
  have run: "get_calendar ?e cached_world example_dir (Some example_page_url) True
       = (Inl (ConnectionError (''Failed to retrieve calendar from '' @ quoted example_page_url @ status_line 500)),
          cached_world\<lparr>fs := (fs cached_world)(example_file := None), requested := [example_page_url]\<rparr>)"
    unfolding get_calendar_cases[OF cached_mkdir] example_file_eq
    by (simp add: cached_stat page_status_failure example_requested)
  note t = forced_refresh_not_rolled_back[OF st, of "Some example_page_url", THEN conjunct2, rule_format, OF run]
  show ?thesis using t run cached_stat by (simp add: example_file_eq)
qed

text \<open>
  Claim C7. A failing call writes no file: afterwards there is no regular file at the path
  of the cached artifact, and every regular file of the filesystem was there before with
  the same bytes. A call either returns the path of an existing artifact or fails so.
\<close>

theorem no_partial_success:
  assumes "get_calendar e w dir page_url force_dl = (Inl x, w')"
  shows "(\<forall>b. stat (fs w') (dir @ [cache_file_name (today e)]) \<noteq> Some (File b))
       \<and> (\<forall>q b. fs w' q = Some (File b) \<longrightarrow> fs w q = Some (File b))"
proof (cases "mkdir_parents (fs w) dir")
  case (Inl y)
  from get_calendar_mkdir_fails[OF this] assms have "w' = w" by simp
  moreover have "stat (fs w) dir \<noteq> Some Dir" using Inl by (rule mkdir_parents_fails)
  ultimately show ?thesis by (simp add: stat_snoc)
next
  case (Inr fs1)
  let ?file = "dir @ [cache_file_name (today e)]"
  note g = get_calendar_cases[OF Inr, of e page_url force_dl]
  show ?thesis
  proof (cases "stat (fs w) ?file")
    case None
    with g assms have "download e (w\<lparr>fs := fs1\<rparr>) ?file page_url = (Inl x, w')" by simp
    then have "fs w' = fs1" by (simp add: download_fails_fs)
    moreover have "stat fs1 ?file = None" using mkdir_parents_stat_child[OF Inr] None by simp
    ultimately show ?thesis using mkdir_parents_no_files[OF Inr] by auto
  next
    case (Some nd)
    show ?thesis
    proof (cases nd)
      case Dir
      with Some g assms have "w' = w" by (simp split: if_splits)
      with Some Dir show ?thesis by simp
    next
      case (File b)
      with Some g assms
      have "download e (w\<lparr>fs := (fs w)(?file := None)\<rparr>) ?file page_url = (Inl x, w')"
        by (simp split: if_splits)
      then have "fs w' = (fs w)(?file := None)" by (simp add: download_fails_fs)
      then show ?thesis by (simp add: stat_removed)
    qed
  qed
qed

theorem no_partial_success_witness:
  "get_calendar (example_env 404 [] 200 True) empty_world example_dir (Some example_page_url) False
     = (Inl (ConnectionError (''Failed to retrieve calendar from '' @ quoted example_page_url @ status_line 404)),
        empty_world\<lparr>fs := [[''calendars''] \<mapsto> Dir], requested := [example_page_url]\<rparr>)
   \<and> stat [[''calendars''] \<mapsto> Dir] example_file \<noteq> Some (File example_pdf)"
proof -
  let ?e = "example_env 404 [] 200 True"
  have run: "get_calendar ?e empty_world example_dir (Some example_page_url) False
     = (Inl (ConnectionError (''Failed to retrieve calendar from '' @ quoted example_page_url @ status_line 404)),
        empty_world\<lparr>fs := [[''calendars''] \<mapsto> Dir], requested := [example_page_url]\<rparr>)"
    unfolding get_calendar_cases[OF example_mkdir] example_file_eq
    by (simp add: empty_stat page_status_failure example_requested)
  from no_partial_success[OF run, THEN conjunct1, rule_format, of example_pdf]
  show ?thesis using run by (simp add: example_file_eq)
qed

section \<open>Downloading\<close>

lemma one_match_links:
  assumes "filter is_dl_anchor as = [a]" and "a_attrs a ''href'' = Some link"
  shows "dl_links as = Inr [link]"
proof -
  have "\<forall>x\<in>set as. is_dl_anchor x \<longrightarrow> a_attrs x ''href'' \<noteq> None"
  proof (intro ballI impI)
    fix x assume "x \<in> set as" "is_dl_anchor x"
    then have "x \<in> set (filter is_dl_anchor as)" by simp
    then have "x = a" using assms(1) by simp
    then show "a_attrs x ''href'' \<noteq> None" using assms(2) by simp
  qed
  from dl_links_filter[OF this] assms show ?thesis by simp
qed

lemma one_match_missing:
  assumes "filter is_dl_anchor as = [a]" and "a_attrs a ''href'' = None"
  shows "dl_links as = Inl (KeyError ''href'')"
proof -
  have "a \<in> set (filter is_dl_anchor as)" using assms(1) by simp
  then have "a \<in> set as" "is_dl_anchor a" by simp_all
  then show ?thesis using assms(2) by (rule dl_links_missing)
qed

lemma get_calendar_absent:
  assumes "mkdir_parents (fs w) dir = Inr fs1"
    and "\<not> path_exists (fs w) (dir @ [cache_file_name (today e)])"
  shows "get_calendar e w dir page_url force_dl
     = download e (w\<lparr>fs := fs1\<rparr>) (dir @ [cache_file_name (today e)]) page_url"
    and "stat fs1 dir = Some Dir" and "fs1 (dir @ [cache_file_name (today e)]) = None"
proof -
  show "get_calendar e w dir page_url force_dl
     = download e (w\<lparr>fs := fs1\<rparr>) (dir @ [cache_file_name (today e)]) page_url"
    using get_calendar_cases[OF assms(1), of e page_url force_dl] assms(2)
    by (simp add: path_exists_def)
  show d: "stat fs1 dir = Some Dir" using assms(1) by (rule mkdir_parents_is_dir)
  have "stat fs1 (dir @ [cache_file_name (today e)]) = None"
    using mkdir_parents_stat_child[OF assms(1)] assms(2) by (simp add: path_exists_def)
  with d show "fs1 (dir @ [cache_file_name (today e)]) = None" by (simp add: stat_snoc)
qed

lemma str_in_status_line: "str_in (str_int code) (pre @ status_line code)"
proof -
  have "pre @ status_line code = (pre @ CHR 0x0A # ''Status code: '') @ str_int code"
    by (simp add: status_line_def)
  then show ?thesis unfolding str_in_def by (simp only: sublist_append_leftI)
qed

lemma get_calendar_fresh:
  assumes "mkdir_parents (fs w) dir = Inr fs1"
    and "\<not> path_exists (fs w) (dir @ [cache_file_name (today e)])
         \<or> (force_dl \<and> (\<exists>b. stat (fs w) (dir @ [cache_file_name (today e)]) = Some (File b)))"
  shows "get_calendar e w dir page_url force_dl
     = download e (w\<lparr>fs := fs1(dir @ [cache_file_name (today e)] := None)\<rparr>)
         (dir @ [cache_file_name (today e)]) page_url"
    and "stat (fs1(dir @ [cache_file_name (today e)] := None)) dir = Some Dir"
proof -
  let ?file = "dir @ [cache_file_name (today e)]"
  have d: "stat fs1 dir = Some Dir" using assms(1) by (rule mkdir_parents_is_dir)
  then show "stat (fs1(?file := None)) dir = Some Dir" by (simp add: stat_update_child)
  show "get_calendar e w dir page_url force_dl = download e (w\<lparr>fs := fs1(?file := None)\<rparr>) ?file page_url"
  proof (cases "stat (fs w) ?file")
    case None
    then have "\<not> path_exists (fs w) ?file" by (simp add: path_exists_def)
    from get_calendar_absent(1,3)[OF assms(1) this]
    show ?thesis by (simp add: fun_upd_idem)
  next
    case (Some nd)
    with assms(2) obtain b where b: "force_dl" "stat (fs w) ?file = Some (File b)"
      by (auto simp: path_exists_def)
    then have "stat (fs w) dir = Some Dir" by (simp add: stat_snoc split: if_splits)
    then have "fs1 = fs w" using assms(1) by (simp add: mkdir_parents_noop)
    with get_calendar_cases[OF assms(1), of e page_url force_dl] b show ?thesis by simp
  qed
qed

text \<open>
  Claim C2. A call that downloads and succeeds returns \<open>dir / (cache key + ".pdf")\<close>, and
  the file at that path then holds exactly the bytes of the response to the request for the
  link, whatever was there before. The first part starts from the conditions (the file is
  absent, or is a regular file that a forced refresh has just removed; the page is served
  with status 200 and has exactly one matching anchor, whose \<^verbatim>\<open>href\<close> is served with status
  200); the second part starts from the outcome (a path is returned and requests were sent).
\<close>

theorem download_writes_pdf:
  "(mkdir_parents (fs w) dir = Inr fs1
      \<and> (\<not> path_exists (fs w) (dir @ [cache_key (today e) @ ''.pdf''])
          \<or> (force_dl \<and> (\<exists>b. stat (fs w) (dir @ [cache_key (today e) @ ''.pdf'']) = Some (File b))))
      \<and> u \<noteq> [] \<and> http_get e u = Inr r \<and> status_code r = 200
      \<and> filter is_dl_anchor (find_all_a e (content r)) = [a] \<and> a_attrs a ''href'' = Some link
      \<and> http_get e link = Inr r2 \<and> status_code r2 = 200
    \<longrightarrow> get_calendar e w dir (Some u) force_dl
          = (Inr (dir @ [cache_key (today e) @ ''.pdf'']),
             w\<lparr>fs := fs1(dir @ [cache_key (today e) @ ''.pdf''] \<mapsto> File (content r2)),
               requested := requested w @ [u, link]\<rparr>)
        \<and> stat (fs1(dir @ [cache_key (today e) @ ''.pdf''] \<mapsto> File (content r2)))
             (dir @ [cache_key (today e) @ ''.pdf'']) = Some (File (content r2)))
   \<and> (get_calendar e w dir page_url force_dl = (Inr p, w') \<and> requested w' \<noteq> requested w
    \<longrightarrow> p = dir @ [cache_key (today e) @ ''.pdf'']
        \<and> (\<exists>fs0 v l r3. mkdir_parents (fs w) dir = Inr fs0 \<and> page_url = Some v
              \<and> requested w' = requested w @ [v, l]
              \<and> http_get e l = Inr r3 \<and> status_code r3 = 200
              \<and> fs w' = fs0(p \<mapsto> File (content r3))
              \<and> stat (fs w') p = Some (File (content r3))))"
proof (intro conjI impI)
  let ?file = "dir @ [cache_file_name (today e)]"
  have n: "dir @ [cache_key (today e) @ ''.pdf''] = ?file" by (simp add: cache_file_name_def)
  {
    assume h: "mkdir_parents (fs w) dir = Inr fs1
      \<and> (\<not> path_exists (fs w) (dir @ [cache_key (today e) @ ''.pdf''])
          \<or> (force_dl \<and> (\<exists>b. stat (fs w) (dir @ [cache_key (today e) @ ''.pdf'']) = Some (File b))))
      \<and> u \<noteq> [] \<and> http_get e u = Inr r \<and> status_code r = 200
      \<and> filter is_dl_anchor (find_all_a e (content r)) = [a] \<and> a_attrs a ''href'' = Some link
      \<and> http_get e link = Inr r2 \<and> status_code r2 = 200"
    then have mk: "mkdir_parents (fs w) dir = Inr fs1"
      and c: "\<not> path_exists (fs w) ?file \<or> (force_dl \<and> (\<exists>b. stat (fs w) ?file = Some (File b)))"
      and u: "u \<noteq> []" and pg: "http_get e u = Inr r" and s: "status_code r = 200"
      and f: "filter is_dl_anchor (find_all_a e (content r)) = [a]" and hr: "a_attrs a ''href'' = Some link"
      and pd: "http_get e link = Inr r2" and s2: "status_code r2 = 200"
      unfolding n by blast+
    note a = get_calendar_fresh[OF mk c]
    have l: "dl_links (find_all_a e (content r)) = Inr [link]"
      using f hr by (rule one_match_links)
    have wr: "write_bytes (fs1(?file := None)) ?file (content r2) = Inr (fs1(?file \<mapsto> File (content r2)))"
      using write_bytes_child[OF a(2), of "cache_file_name (today e)" "content r2"] by simp
    have g: "get_calendar e w dir (Some u) force_dl
        = (Inr ?file, w\<lparr>fs := fs1(?file \<mapsto> File (content r2)), requested := requested w @ [u, link]\<rparr>)"
      unfolding a(1) download_page[OF u pg] using s pd s2 l wr by simp
    have st: "stat (fs1(?file \<mapsto> File (content r2))) ?file = Some (File (content r2))"
      using mkdir_parents_is_dir[OF mk] by (rule stat_written)
    show "get_calendar e w dir (Some u) force_dl
          = (Inr (dir @ [cache_key (today e) @ ''.pdf'']),
             w\<lparr>fs := fs1(dir @ [cache_key (today e) @ ''.pdf''] \<mapsto> File (content r2)),
               requested := requested w @ [u, link]\<rparr>)"
      unfolding n by (rule g)
    show "stat (fs1(dir @ [cache_key (today e) @ ''.pdf''] \<mapsto> File (content r2)))
             (dir @ [cache_key (today e) @ ''.pdf'']) = Some (File (content r2))"
      unfolding n by (rule st)
  }
  {
    assume h: "get_calendar e w dir page_url force_dl = (Inr p, w') \<and> requested w' \<noteq> requested w"
    then have run: "get_calendar e w dir page_url force_dl = (Inr p, w')"
      and req: "requested w' \<noteq> requested w" by blast+
    obtain fs0 where mk: "mkdir_parents (fs w) dir = Inr fs0"
      using run get_calendar_mkdir_fails[of w dir _ e page_url force_dl]
      by (cases "mkdir_parents (fs w) dir") auto
    have c: "\<not> path_exists (fs w) ?file \<or> (force_dl \<and> (\<exists>b. stat (fs w) ?file = Some (File b)))"
    proof (cases "stat (fs w) ?file")
      case None
      then show ?thesis by (simp add: path_exists_def)
    next
      case (Some nd)
      with get_calendar_cases[OF mk, of e page_url force_dl] run req show ?thesis
        by (cases nd) (auto split: if_splits)
    qed
    note a = get_calendar_fresh[OF mk c]
    from run have "download e (w\<lparr>fs := fs0(?file := None)\<rparr>) ?file page_url = (Inr p, w')"
      unfolding a(1) .
    from download_succeeds[OF this] obtain v l and r3 :: response where
      p: "p = ?file" and pu: "page_url = Some v" and rq: "requested w' = requested w @ [v, l]"
      and pd: "http_get e l = Inr r3" and s3: "status_code r3 = 200"
      and wr: "write_bytes (fs0(?file := None)) ?file (content r3) = Inr (fs w')"
      by auto
    from write_bytes_result[OF wr] have fw: "fs w' = fs0(?file \<mapsto> File (content r3))" by simp
    have st: "stat (fs w') ?file = Some (File (content r3))"
      unfolding fw using mkdir_parents_is_dir[OF mk] by (rule stat_written)
    show "p = dir @ [cache_key (today e) @ ''.pdf'']" unfolding n by (rule p)
    show "\<exists>fs0 v l r3. mkdir_parents (fs w) dir = Inr fs0 \<and> page_url = Some v
              \<and> requested w' = requested w @ [v, l]
              \<and> http_get e l = Inr r3 \<and> status_code r3 = 200
              \<and> fs w' = fs0(p \<mapsto> File (content r3))
              \<and> stat (fs w') p = Some (File (content r3))"
      using mk pu rq pd s3 fw st unfolding p by blast
  }
qed

lemma example_one_match: "filter is_dl_anchor [other_anchor, dl_anchor] = [dl_anchor]"
  by (simp add: example_dl_anchor example_other_anchor)

lemma example_key_path:
  "example_dir @ [cache_key (today (example_env ps as ds ok)) @ ''.pdf''] = example_file"
  using example_file_eq[of ps as ds ok] by (simp only: cache_file_name_def)

theorem download_writes_pdf_witness:
  "get_calendar (example_env 200 [other_anchor, dl_anchor] 200 True) empty_world example_dir
        (Some example_page_url) False
       = (Inr example_file,
          empty_world\<lparr>fs := [[''calendars''] \<mapsto> Dir, example_file \<mapsto> File example_pdf],
                      requested := [example_page_url, example_pdf_url]\<rparr>)
   \<and> stat [[''calendars''] \<mapsto> Dir, example_file \<mapsto> File example_pdf] example_file
        = Some (File example_pdf)
   \<and> stat (fs cached_world) example_file = Some (File [0x6F, 0x6C, 0x64])
   \<and> get_calendar (example_env 200 [other_anchor, dl_anchor] 200 True) cached_world example_dir
        (Some example_page_url) True
       = (Inr example_file,
          cached_world\<lparr>fs := cached_fs(example_file \<mapsto> File example_pdf),
                       requested := [example_page_url, example_pdf_url]\<rparr>)
   \<and> stat (cached_fs(example_file \<mapsto> File example_pdf)) example_file = Some (File example_pdf)
   \<and> (\<exists>l r3. http_get (example_env 200 [other_anchor, dl_anchor] 200 True) l = Inr r3
          \<and> status_code r3 = 200
          \<and> stat (cached_fs(example_file \<mapsto> File example_pdf)) example_file
               = Some (File (content r3)))"
proof -
  let ?e = "example_env 200 [other_anchor, dl_anchor] 200 True"
  let ?r = "\<lparr>status_code = 200, content = []\<rparr> :: response"
  let ?r2 = "\<lparr>status_code = 200, content = example_pdf\<rparr> :: response"
  let ?w2 = "cached_world\<lparr>fs := cached_fs(example_file \<mapsto> File example_pdf),
                       requested := [example_page_url, example_pdf_url]\<rparr>"
  have f: "filter is_dl_anchor (find_all_a ?e (content ?r)) = [dl_anchor]"
    unfolding example_env_sel by (rule example_one_match)
  have s1: "status_code ?r = 200" and s2: "status_code ?r2 = 200" by simp_all
  have c: "content ?r2 = example_pdf" by simp
  have ab: "\<not> path_exists (fs empty_world) (example_dir @ [cache_key (today ?e) @ ''.pdf''])"
    unfolding example_key_path by (simp add: path_exists_def empty_stat)
  have forced: "True \<and> (\<exists>b. stat (fs cached_world) (example_dir @ [cache_key (today ?e) @ ''.pdf''])
      = Some (File b))"
    unfolding example_key_path by (simp add: cached_stat)
  have h1: "mkdir_parents (fs empty_world) example_dir = Inr [[''calendars''] \<mapsto> Dir]
      \<and> (\<not> path_exists (fs empty_world) (example_dir @ [cache_key (today ?e) @ ''.pdf''])
          \<or> (False \<and> (\<exists>b. stat (fs empty_world) (example_dir @ [cache_key (today ?e) @ ''.pdf''])
                = Some (File b))))
      \<and> example_page_url \<noteq> [] \<and> http_get ?e example_page_url = Inr ?r \<and> status_code ?r = 200
      \<and> filter is_dl_anchor (find_all_a ?e (content ?r)) = [dl_anchor]
      \<and> a_attrs dl_anchor ''href'' = Some example_pdf_url
      \<and> http_get ?e example_pdf_url = Inr ?r2 \<and> status_code ?r2 = 200"
    using example_mkdir ab example_page_url_nonempty example_env_sel(2)[of 200 "[other_anchor, dl_anchor]" 200 True]
      s1 f example_dl_anchor(2) example_env_sel(3)[of 200 "[other_anchor, dl_anchor]" 200 True] s2
    by blast
  have h2: "mkdir_parents (fs cached_world) example_dir = Inr cached_fs
      \<and> (\<not> path_exists (fs cached_world) (example_dir @ [cache_key (today ?e) @ ''.pdf''])
          \<or> (True \<and> (\<exists>b. stat (fs cached_world) (example_dir @ [cache_key (today ?e) @ ''.pdf''])
                = Some (File b))))
      \<and> example_page_url \<noteq> [] \<and> http_get ?e example_page_url = Inr ?r \<and> status_code ?r = 200
      \<and> filter is_dl_anchor (find_all_a ?e (content ?r)) = [dl_anchor]
      \<and> a_attrs dl_anchor ''href'' = Some example_pdf_url
      \<and> http_get ?e example_pdf_url = Inr ?r2 \<and> status_code ?r2 = 200"
    using cached_mkdir forced example_page_url_nonempty example_env_sel(2)[of 200 "[other_anchor, dl_anchor]" 200 True]
      s1 f example_dl_anchor(2) example_env_sel(3)[of 200 "[other_anchor, dl_anchor]" 200 True] s2
    by blast
  note t1 = download_writes_pdf[where w = empty_world and dir = example_dir and e = ?e
      and ?fs1.0 = "[[''calendars''] \<mapsto> Dir]" and force_dl = False and u = example_page_url
      and r = ?r and a = dl_anchor and link = example_pdf_url and ?r2.0 = ?r2,
      THEN conjunct1, THEN mp, OF h1, unfolded example_key_path c example_requested append_Nil]
  note t2 = download_writes_pdf[where w = cached_world and dir = example_dir and e = ?e
      and ?fs1.0 = cached_fs and force_dl = True and u = example_page_url
      and r = ?r and a = dl_anchor and link = example_pdf_url and ?r2.0 = ?r2,
      THEN conjunct1, THEN mp, OF h2, unfolded example_key_path c example_requested append_Nil]
  have h3: "get_calendar ?e cached_world example_dir (Some example_page_url) True = (Inr example_file, ?w2)
      \<and> requested ?w2 \<noteq> requested cached_world"
    using t2[THEN conjunct1] by (simp add: example_requested)
  note t3 = download_writes_pdf[where w = cached_world and dir = example_dir and e = ?e
      and page_url = "Some example_page_url" and force_dl = True and p = example_file and w' = ?w2,
      THEN conjunct2, THEN mp, OF h3, THEN conjunct2]
  have c3: "\<exists>l r3. http_get ?e l = Inr r3 \<and> status_code r3 = 200
          \<and> stat (cached_fs(example_file \<mapsto> File example_pdf)) example_file = Some (File (content r3))"
    using t3 by auto
  from t1 cached_stat t2 c3 show ?thesis by blast
qed

section \<open>HTTP status codes\<close>

text \<open>
  Claim C3, as amended. Each of the two fetches goes on only when the status is exactly
  200. Any other status, other 2xx codes included, makes the call fail with a
  \<^verbatim>\<open>ConnectionError\<close> whose message ends with the status code; after status 200 on the page
  the link is requested, and after status 200 on the link the call returns the path.
\<close>

theorem only_status_200_proceeds:
  assumes "mkdir_parents (fs w) dir = Inr fs1"
    and "\<not> path_exists (fs w) (dir @ [cache_file_name (today e)])"
    and "u \<noteq> []" and "http_get e u = Inr r"
  shows "(status_code r \<noteq> 200 \<longrightarrow>
            (\<exists>msg. get_calendar e w dir (Some u) force_dl
                     = (Inl (ConnectionError msg), w\<lparr>fs := fs1, requested := requested w @ [u]\<rparr>)
                   \<and> str_in (str_int (status_code r)) msg))
       \<and> (status_code r = 200 \<and> dl_links (find_all_a e (content r)) = Inr [link]
            \<and> http_get e link = Inr r2 \<longrightarrow>
            (status_code r2 \<noteq> 200 \<longrightarrow>
               (\<exists>msg. get_calendar e w dir (Some u) force_dl
                        = (Inl (ConnectionError msg), w\<lparr>fs := fs1, requested := requested w @ [u, link]\<rparr>)
                      \<and> str_in (str_int (status_code r2)) msg))
            \<and> (status_code r2 = 200 \<longrightarrow>
                 fst (get_calendar e w dir (Some u) force_dl) = Inr (dir @ [cache_file_name (today e)])
                 \<and> requested (snd (get_calendar e w dir (Some u) force_dl)) = requested w @ [u, link]))"
proof -
  let ?file = "dir @ [cache_file_name (today e)]"
  note a = get_calendar_absent[OF assms(1,2)]
  note d = download_page[OF assms(3,4), of "w\<lparr>fs := fs1\<rparr>" ?file]
  have p1: "status_code r \<noteq> 200 \<Longrightarrow>
      get_calendar e w dir (Some u) force_dl
        = (Inl (ConnectionError (''Failed to retrieve calendar from '' @ quoted u @ status_line (status_code r))),
           w\<lparr>fs := fs1, requested := requested w @ [u]\<rparr>)"
    unfolding a(1) d by simp
  have p2: "status_code r = 200 \<Longrightarrow> dl_links (find_all_a e (content r)) = Inr [link] \<Longrightarrow>
      http_get e link = Inr r2 \<Longrightarrow> status_code r2 \<noteq> 200 \<Longrightarrow>
      get_calendar e w dir (Some u) force_dl
        = (Inl (ConnectionError (''Failed to download PDF from '' @ quoted link @ status_line (status_code r2))),
           w\<lparr>fs := fs1, requested := requested w @ [u, link]\<rparr>)"
    unfolding a(1) d by simp
  have wr: "write_bytes fs1 ?file (content r2) = Inr (fs1(?file \<mapsto> File (content r2)))"
    using a(2,3) by (rule write_bytes_child)
  have p3: "status_code r = 200 \<Longrightarrow> dl_links (find_all_a e (content r)) = Inr [link] \<Longrightarrow>
      http_get e link = Inr r2 \<Longrightarrow> status_code r2 = 200 \<Longrightarrow>
      get_calendar e w dir (Some u) force_dl
        = (Inr ?file, w\<lparr>fs := fs1(?file \<mapsto> File (content r2)), requested := requested w @ [u, link]\<rparr>)"
    unfolding a(1) d using wr by simp
  have m1: "str_in (str_int (status_code r))
      (''Failed to retrieve calendar from '' @ quoted u @ status_line (status_code r))"
    using str_in_status_line[of "status_code r" "''Failed to retrieve calendar from '' @ quoted u"]
    by simp
  have m2: "str_in (str_int (status_code r2))
      (''Failed to download PDF from '' @ quoted link @ status_line (status_code r2))"
    using str_in_status_line[of "status_code r2" "''Failed to download PDF from '' @ quoted link"]
    by simp
  show ?thesis
  proof (intro conjI impI)
    assume "status_code r \<noteq> 200"
    from p1[OF this] m1
    show "\<exists>msg. get_calendar e w dir (Some u) force_dl
                     = (Inl (ConnectionError msg), w\<lparr>fs := fs1, requested := requested w @ [u]\<rparr>)
                   \<and> str_in (str_int (status_code r)) msg"
      by blast
  next
    assume h: "status_code r = 200 \<and> dl_links (find_all_a e (content r)) = Inr [link]
            \<and> http_get e link = Inr r2" and n: "status_code r2 \<noteq> 200"
    from p2[OF _ _ _ n] h m2
    show "\<exists>msg. get_calendar e w dir (Some u) force_dl
                        = (Inl (ConnectionError msg), w\<lparr>fs := fs1, requested := requested w @ [u, link]\<rparr>)
                      \<and> str_in (str_int (status_code r2)) msg"
      by blast
  next
    assume h: "status_code r = 200 \<and> dl_links (find_all_a e (content r)) = Inr [link]
            \<and> http_get e link = Inr r2" and n: "status_code r2 = 200"
    from p3[OF _ _ _ n] h
    have g: "get_calendar e w dir (Some u) force_dl
        = (Inr ?file, w\<lparr>fs := fs1(?file \<mapsto> File (content r2)), requested := requested w @ [u, link]\<rparr>)"
      by blast
    show "fst (get_calendar e w dir (Some u) force_dl) = Inr ?file"
      and "requested (snd (get_calendar e w dir (Some u) force_dl)) = requested w @ [u, link]"
      unfolding g by simp_all
  qed
qed

lemma example_absent:
  "\<not> path_exists (fs empty_world) (example_dir @ [cache_file_name (today (example_env ps as ds ok))])"
  by (simp add: example_file_eq path_exists_def empty_stat)

lemma example_page_failure:
  assumes "ps \<noteq> 200"
  shows "get_calendar (example_env ps as ds ok) empty_world example_dir (Some example_page_url) False
     = (Inl (ConnectionError (''Failed to retrieve calendar from '' @ quoted example_page_url @ status_line ps)),
        empty_world\<lparr>fs := [[''calendars''] \<mapsto> Dir], requested := [example_page_url]\<rparr>)"
  unfolding get_calendar_cases[OF example_mkdir] example_file_eq
  using assms by (simp add: empty_stat page_status_failure example_requested)

theorem only_status_200_proceeds_witness:
  "mkdir_parents (fs empty_world) example_dir = Inr [[''calendars''] \<mapsto> Dir]
   \<and> \<not> path_exists (fs empty_world) example_file
   \<and> example_page_url \<noteq> []
   \<and> (\<exists>msg. get_calendar (example_env 204 [dl_anchor] 200 True) empty_world example_dir
                (Some example_page_url) False
              = (Inl (ConnectionError msg),
                 empty_world\<lparr>fs := [[''calendars''] \<mapsto> Dir], requested := [example_page_url]\<rparr>)
            \<and> str_in (str_int 204) msg)
   \<and> (\<exists>msg. get_calendar (example_env 200 [dl_anchor] 503 True) empty_world example_dir
                (Some example_page_url) False
              = (Inl (ConnectionError msg),
                 empty_world\<lparr>fs := [[''calendars''] \<mapsto> Dir],
                             requested := [example_page_url, example_pdf_url]\<rparr>)
            \<and> str_in (str_int 503) msg)
   \<and> fst (get_calendar (example_env 200 [dl_anchor] 200 True) empty_world example_dir
             (Some example_page_url) False) = Inr example_file"
proof -
  have m: "\<not> path_exists (fs empty_world) example_file"
    by (simp add: path_exists_def empty_stat)
  note t1 = only_status_200_proceeds[where force_dl = False,
      OF example_mkdir example_absent[of 204 "[dl_anchor]" 200 True] example_page_url_nonempty
      example_env_sel(2), THEN conjunct1, rule_format]
  have c1: "\<exists>msg. get_calendar (example_env 204 [dl_anchor] 200 True) empty_world example_dir
                (Some example_page_url) False
              = (Inl (ConnectionError msg),
                 empty_world\<lparr>fs := [[''calendars''] \<mapsto> Dir], requested := [example_page_url]\<rparr>)
            \<and> str_in (str_int 204) msg"
    using t1 by (simp add: example_requested)
  have h2: "status_code \<lparr>status_code = 200, content = []\<rparr> = 200
      \<and> dl_links (find_all_a (example_env 200 [dl_anchor] 503 True) (content \<lparr>status_code = 200, content = []\<rparr>))
          = Inr [example_pdf_url]
      \<and> http_get (example_env 200 [dl_anchor] 503 True) example_pdf_url
          = Inr \<lparr>status_code = 503, content = example_pdf\<rparr>"
    by (simp add: example_links example_env_sel(3))
  note t2 = only_status_200_proceeds[where force_dl = False,
      OF example_mkdir example_absent[of 200 "[dl_anchor]" 503 True] example_page_url_nonempty
      example_env_sel(2), THEN conjunct2, rule_format, OF h2, THEN conjunct1, rule_format]
  have c2: "\<exists>msg. get_calendar (example_env 200 [dl_anchor] 503 True) empty_world example_dir
                (Some example_page_url) False
              = (Inl (ConnectionError msg),
                 empty_world\<lparr>fs := [[''calendars''] \<mapsto> Dir],
                             requested := [example_page_url, example_pdf_url]\<rparr>)
            \<and> str_in (str_int 503) msg"
    using t2 by (simp add: example_requested)
  have h3: "status_code \<lparr>status_code = 200, content = []\<rparr> = 200
      \<and> dl_links (find_all_a (example_env 200 [dl_anchor] 200 True) (content \<lparr>status_code = 200, content = []\<rparr>))
          = Inr [example_pdf_url]
      \<and> http_get (example_env 200 [dl_anchor] 200 True) example_pdf_url
          = Inr \<lparr>status_code = 200, content = example_pdf\<rparr>"
    by (simp add: example_links example_env_sel(3))
  note t3 = only_status_200_proceeds[where force_dl = False,
      OF example_mkdir example_absent[of 200 "[dl_anchor]" 200 True] example_page_url_nonempty
      example_env_sel(2), THEN conjunct2, rule_format, OF h3, THEN conjunct2, rule_format,
      THEN conjunct1]
  have c3: "fst (get_calendar (example_env 200 [dl_anchor] 200 True) empty_world example_dir
             (Some example_page_url) False) = Inr example_file"
    using t3 by (simp add: example_file_eq)
  from example_mkdir m example_page_url_nonempty c1 c2 c3 show ?thesis by blast
qed

text \<open>
  Claim C3 as stated fails: status 204 is a 2xx status, and the call stops with a
  \<^verbatim>\<open>ConnectionError\<close> after the page request.
\<close>

theorem status_204_counterexample:
  "200 \<le> (204::int) \<and> (204::int) < 300
   \<and> get_calendar (example_env 204 [dl_anchor] 200 True) empty_world example_dir
        (Some example_page_url) False
      = (Inl (ConnectionError (''Failed to retrieve calendar from '' @ quoted example_page_url
                                 @ status_line 204)),
         empty_world\<lparr>fs := [[''calendars''] \<mapsto> Dir], requested := [example_page_url]\<rparr>)"
  using example_page_failure[of 204 "[dl_anchor]" 200 True] by simp

section \<open>Extracting the link\<close>

text \<open>
  Claim C9. When the page has exactly one anchor whose text contains the marker and that
  anchor has no \<^verbatim>\<open>href\<close>, the call stops with \<^verbatim>\<open>KeyError('href')\<close> while the list of links is
  built. This is none of \<^verbatim>\<open>ValueError\<close>, \<^verbatim>\<open>ConnectionError\<close> and \<^verbatim>\<open>FileNotFoundError\<close>.
\<close>

theorem missing_href_key_error:
  assumes "mkdir_parents (fs w) dir = Inr fs1"
    and "\<not> path_exists (fs w) (dir @ [cache_file_name (today e)])"
    and "u \<noteq> []" and "http_get e u = Inr r" and "status_code r = 200"
    and "filter is_dl_anchor (find_all_a e (content r)) = [a]"
    and "a_attrs a ''href'' = None"
  shows "get_calendar e w dir (Some u) force_dl
           = (Inl (KeyError ''href''), w\<lparr>fs := fs1, requested := requested w @ [u]\<rparr>)
       \<and> (\<forall>m. KeyError ''href'' \<noteq> ValueError m \<and> KeyError ''href'' \<noteq> ConnectionError m
                \<and> KeyError ''href'' \<noteq> FileNotFoundError m)"
proof -
  note a = get_calendar_absent[OF assms(1,2)]
  have l: "dl_links (find_all_a e (content r)) = Inl (KeyError ''href'')"
    using assms(6,7) by (rule one_match_missing)
  have "get_calendar e w dir (Some u) force_dl
           = (Inl (KeyError ''href''), w\<lparr>fs := fs1, requested := requested w @ [u]\<rparr>)"
    unfolding a(1) download_page[OF assms(3,4)] using assms(5) l by simp
  then show ?thesis by simp
qed

lemma example_bare_match: "filter is_dl_anchor [other_anchor, bare_anchor] = [bare_anchor]"
  by (simp add: example_dl_anchor example_other_anchor)

theorem missing_href_key_error_witness:
  "mkdir_parents (fs empty_world) example_dir = Inr [[''calendars''] \<mapsto> Dir]
   \<and> \<not> path_exists (fs empty_world) example_file
   \<and> example_page_url \<noteq> []
   \<and> filter is_dl_anchor [other_anchor, bare_anchor] = [bare_anchor]
   \<and> a_attrs bare_anchor ''href'' = None
   \<and> get_calendar (example_env 200 [other_anchor, bare_anchor] 200 True) empty_world example_dir
        (Some example_page_url) False
      = (Inl (KeyError ''href''),
         empty_world\<lparr>fs := [[''calendars''] \<mapsto> Dir], requested := [example_page_url]\<rparr>)"
proof -
  let ?e = "example_env 200 [other_anchor, bare_anchor] 200 True"
  have m: "\<not> path_exists (fs empty_world) example_file"
    by (simp add: path_exists_def empty_stat)
  have s1: "status_code \<lparr>status_code = 200, content = []\<rparr> = 200" by simp
  have f: "filter is_dl_anchor (find_all_a ?e (content \<lparr>status_code = 200, content = []\<rparr>)) = [bare_anchor]"
    unfolding example_env_sel by (rule example_bare_match)
  note t = missing_href_key_error[where force_dl = False,
      OF example_mkdir example_absent example_page_url_nonempty
      example_env_sel(2) s1 f example_dl_anchor(4), THEN conjunct1]
  have c: "get_calendar ?e empty_world example_dir (Some example_page_url) False
      = (Inl (KeyError ''href''),
         empty_world\<lparr>fs := [[''calendars''] \<mapsto> Dir], requested := [example_page_url]\<rparr>)"
    using t by (simp add: example_requested)
  from example_mkdir m example_page_url_nonempty example_bare_match example_dl_anchor(4) c
  show ?thesis by blast
qed

text \<open>
  The policy on the number of matches, for a page on which every matching anchor has an
  \<^verbatim>\<open>href\<close>: none is a \<^verbatim>\<open>ValueError\<close> ("No download links found"), two or more is a
  \<^verbatim>\<open>ValueError\<close> with another message ("Multiple download links found"), and exactly one
  is requested next.
\<close>

lemma link_count_policy:
  assumes "mkdir_parents (fs w) dir = Inr fs1"
    and "\<not> path_exists (fs w) (dir @ [cache_file_name (today e)])"
    and "u \<noteq> []" and "http_get e u = Inr r" and "status_code r = 200"
    and "\<forall>a\<in>set (find_all_a e (content r)). is_dl_anchor a \<longrightarrow> a_attrs a ''href'' \<noteq> None"
  shows "length (filter is_dl_anchor (find_all_a e (content r))) = 0 \<Longrightarrow>
           get_calendar e w dir (Some u) force_dl
             = (Inl (ValueError (''No download links found for search string '' @ quoted search_str)),
                w\<lparr>fs := fs1, requested := requested w @ [u]\<rparr>)"
    and "2 \<le> length (filter is_dl_anchor (find_all_a e (content r))) \<Longrightarrow>
           get_calendar e w dir (Some u) force_dl
             = (Inl (ValueError (''Multiple download links found for search string '' @ quoted search_str)),
                w\<lparr>fs := fs1, requested := requested w @ [u]\<rparr>)"
    and "filter is_dl_anchor (find_all_a e (content r)) = [a] \<Longrightarrow>
           requested (snd (get_calendar e w dir (Some u) force_dl))
             = requested w @ [u, the (a_attrs a ''href'')]"
proof -
  note a = get_calendar_absent[OF assms(1,2)]
  note l = dl_links_filter[OF assms(6)]
  show "length (filter is_dl_anchor (find_all_a e (content r))) = 0 \<Longrightarrow>
           get_calendar e w dir (Some u) force_dl
             = (Inl (ValueError (''No download links found for search string '' @ quoted search_str)),
                w\<lparr>fs := fs1, requested := requested w @ [u]\<rparr>)"
    unfolding a(1) download_page[OF assms(3,4)] l using assms(5) by simp
  show "2 \<le> length (filter is_dl_anchor (find_all_a e (content r))) \<Longrightarrow>
           get_calendar e w dir (Some u) force_dl
             = (Inl (ValueError (''Multiple download links found for search string '' @ quoted search_str)),
                w\<lparr>fs := fs1, requested := requested w @ [u]\<rparr>)"
    unfolding a(1) download_page[OF assms(3,4)] l using assms(5) by auto
  show "filter is_dl_anchor (find_all_a e (content r)) = [a] \<Longrightarrow>
           requested (snd (get_calendar e w dir (Some u) force_dl))
             = requested w @ [u, the (a_attrs a ''href'')]"
    unfolding a(1) download_page[OF assms(3,4)] l using assms(5)
    by (simp split: sum.splits)
qed

lemma link_messages_differ:
  "ValueError (''No download links found for search string '' @ quoted search_str)
     \<noteq> ValueError (''Multiple download links found for search string '' @ quoted search_str)"
  by simp

text \<open>
  Claim C4 fails on a page with two matching anchors of which the first has no \<^verbatim>\<open>href\<close>:
  the claim asks for the failure of the ambiguous case, and the call stops with
  \<^verbatim>\<open>KeyError('href')\<close> before the matches are counted.
\<close>

theorem two_matches_key_error:
  "length (filter is_dl_anchor [bare_anchor, dl_anchor]) = 2
   \<and> get_calendar (example_env 200 [bare_anchor, dl_anchor] 200 True) empty_world example_dir
        (Some example_page_url) False
      = (Inl (KeyError ''href''),
         empty_world\<lparr>fs := [[''calendars''] \<mapsto> Dir], requested := [example_page_url]\<rparr>)"
proof -
  let ?e = "example_env 200 [bare_anchor, dl_anchor] 200 True"
  have l: "dl_links (find_all_a ?e body) = Inl (KeyError ''href'')" for body
    unfolding example_env_sel by (simp add: example_dl_anchor)
  have "get_calendar ?e empty_world example_dir (Some example_page_url) False
      = (Inl (KeyError ''href''),
         empty_world\<lparr>fs := [[''calendars''] \<mapsto> Dir], requested := [example_page_url]\<rparr>)"
    unfolding get_calendar_absent(1)[OF example_mkdir example_absent]
      download_page[OF example_page_url_nonempty example_env_sel(2)] l
    by (simp add: example_requested)
  then show ?thesis by (simp add: example_dl_anchor)
qed

section \<open>What the Launcher reports\<close>

text \<open>
  The branches of \<open>open_calendar\<close>: a path that does not exist; a lookup of the viewer that
  raises; a lookup that returns a false value; and a controller, whose request to open
  \<^verbatim>\<open>file://\<close> followed by the path is issued once, the flag it returns being dropped.
\<close>

lemma launcher_outcome:
  "(\<not> path_exists (fs w) file \<longrightarrow>
      open_calendar e w file using_name
        = (Inl (FileNotFoundError (''File '' @ quoted (path_str file) @ '' does not exist.'')), w))
   \<and> (path_exists (fs w) file \<and> webbrowser_get e using_name = Inl x \<longrightarrow>
      open_calendar e w file using_name = (Inl x, w))
   \<and> (path_exists (fs w) file \<and> webbrowser_get e using_name = Inr None \<longrightarrow>
      open_calendar e w file using_name
        = (Inl (ValueError (''No web browser found with name '' @ quoted (str_opt using_name))), w))
   \<and> (path_exists (fs w) file \<and> webbrowser_get e using_name = Inr (Some b)
        \<and> open_new e b (''file://'' @ path_str file) = Inr ok \<longrightarrow>
      open_calendar e w file using_name
        = (Inr (), w\<lparr>opened := opened w @ [(b, ''file://'' @ path_str file)]\<rparr>))"
  by (simp add: open_calendar_def Let_def)

lemma cached_exists: "path_exists (fs cached_world) example_file"
  by (simp add: path_exists_def cached_stat)

lemma empty_missing: "\<not> path_exists (fs empty_world) example_file"
  by (simp add: path_exists_def empty_stat)

lemma example_browser:
  "webbrowser_get (example_env ps as ds ok) (Some ''firefox'') = Inr (Some ''firefox'')"
  "webbrowser_get (example_env ps as ds ok) (Some ''lynx'')
     = Inl (WebbrowserError ''could not locate runnable browser'')"
  by (simp_all add: example_env_def)

lemma example_file_url: "''file://'' @ path_str example_file = ''file:///calendars/2024june.pdf''"
  by (simp add: path_str_def example_file_def)

text \<open>
  Claim C8 fails on the code for a viewer name that cannot be resolved. The claim, like the
  docstring of \<^verbatim>\<open>open_calendar\<close>, asks for a \<^verbatim>\<open>ValueError\<close>; but \<^verbatim>\<open>webbrowser.get\<close> raises
  \<^verbatim>\<open>webbrowser.Error\<close> for such a name, so the call ends with that exception and the test
  \<^verbatim>\<open>if not browser\<close> is never reached.
\<close>

theorem unknown_viewer_error:
  "path_exists (fs cached_world) example_file
   \<and> webbrowser_get (example_env 200 [] 200 True) (Some ''lynx'')
       = Inl (WebbrowserError ''could not locate runnable browser'')
   \<and> open_calendar (example_env 200 [] 200 True) cached_world example_file (Some ''lynx'')
       = (Inl (WebbrowserError ''could not locate runnable browser''), cached_world)"
  by (simp add: open_calendar_def cached_exists example_browser(2))

text \<open>
  The flag returned by the request to open the file is dropped: a request answered
  \<open>False\<close> and one answered \<open>True\<close> end the call in the same way.
\<close>

lemma open_flag_discarded:
  "open_new (example_env 200 [] 200 False) ''firefox'' ''file:///calendars/2024june.pdf'' = Inr False
   \<and> open_new (example_env 200 [] 200 True) ''firefox'' ''file:///calendars/2024june.pdf'' = Inr True
   \<and> open_calendar (example_env 200 [] 200 False) cached_world example_file (Some ''firefox'')
       = (Inr (), cached_world\<lparr>opened := [(''firefox'', ''file:///calendars/2024june.pdf'')]\<rparr>)
   \<and> open_calendar (example_env 200 [] 200 True) cached_world example_file (Some ''firefox'')
       = (Inr (), cached_world\<lparr>opened := [(''firefox'', ''file:///calendars/2024june.pdf'')]\<rparr>)"
proof -
  have o: "opened cached_world = []" by (simp add: cached_world_def)
  have "open_calendar (example_env 200 [] 200 ok) cached_world example_file (Some ''firefox'')
       = (Inr (), cached_world\<lparr>opened := [(''firefox'', ''file:///calendars/2024june.pdf'')]\<rparr>)" for ok
    by (simp add: open_calendar_def Let_def cached_exists example_browser(1) example_env_sel(5)
        example_file_url[simplified] o)
  then show ?thesis by (simp add: example_env_sel(5))
qed

end
